theory Spec2Isabelle
  imports Main
begin

section \<open>The environment of the scraper\<close>

text \<open>
  The program of \<^verbatim>\<open>scrape_functions.py\<close> talks to three collaborators: the web
  (\<^verbatim>\<open>urlopen\<close>), the markup parser (\<^verbatim>\<open>BeautifulSoup\<close>) and the file system
  (\<^verbatim>\<open>os.path.exists\<close>, \<^verbatim>\<open>os.makedirs\<close>, \<^verbatim>\<open>open\<close>). Every exception
  the Python can raise is a value of \<open>error\<close>; an operation returns its result (or its
  error) together with the world it leaves behind, since the effects made before a raise
  stay.
\<close>

datatype error = URLError | IndexError | ValueError | TypeError | KeyError | OSError

subsection \<open>Parsed markup\<close>

text \<open>
  A parsed page is a tree: text, or a tag with its name, the values of its \<^verbatim>\<open>class\<close>
  attribute (the parser keeps them as a list), its other attributes and its contents.
\<close>

datatype node =
    Text string
  | Tag string "string list" "(string \<times> string) list" "node list"

fun descendants :: "node \<Rightarrow> node list" where
  "descendants (Text s) = []"
| "descendants (Tag n cs as ch) = concat (map (\<lambda>x. x # descendants x) ch)"

fun get_text :: "node \<Rightarrow> string" where
  "get_text (Text s) = s"
| "get_text (Tag n cs as ch) = concat (map get_text ch)"

fun is_tag :: "string \<Rightarrow> node \<Rightarrow> bool" where
  "is_tag t (Text s) = False"
| "is_tag t (Tag n cs as ch) = (n = t)"

fun has_class :: "string \<Rightarrow> node \<Rightarrow> bool" where
  "has_class c (Text s) = False"
| "has_class c (Tag n cs as ch) = (c \<in> set cs)"

fun get_attr :: "node \<Rightarrow> string \<Rightarrow> string option" where
  "get_attr (Text s) k = None"
| "get_attr (Tag n cs as ch) k = map_of as k"

text \<open>\<^verbatim>\<open>find_all(name)\<close>, \<^verbatim>\<open>find_all(class_=c)\<close> and \<^verbatim>\<open>find_all(name, {"class": c})\<close>:
  the matching tags below a node, in document order.\<close>

definition find_all :: "string \<Rightarrow> node \<Rightarrow> node list" where
  "find_all t root = filter (is_tag t) (descendants root)"

definition find_all_class :: "string \<Rightarrow> node \<Rightarrow> node list" where
  "find_all_class c root = filter (has_class c) (descendants root)"

definition find_all_tag_class :: "string \<Rightarrow> string \<Rightarrow> node \<Rightarrow> node list" where
  "find_all_tag_class t c root = filter (\<lambda>x. is_tag t x \<and> has_class c x) (descendants root)"

text \<open>\<^verbatim>\<open>d.a\<close>: the first \<^verbatim>\<open>a\<close> tag below \<open>d\<close>, or \<^verbatim>\<open>None\<close>.\<close>

definition first_a :: "node \<Rightarrow> node option" where
  "first_a d = (case find_all ''a'' d of [] \<Rightarrow> None | x # xs \<Rightarrow> Some x)"

subsection \<open>Python's lists and strings\<close>

text \<open>A \<^verbatim>\<open>str\<close> is a list of characters, each standing for one code point below
  256.\<close>

text \<open>\<^verbatim>\<open>xs[i]\<close> for a non-negative literal index: out of range raises.\<close>

definition py_index :: "'a list \<Rightarrow> nat \<Rightarrow> error + 'a" where
  "py_index xs i = (if i < length xs then Inr (xs ! i) else Inl IndexError)"

text \<open>\<^verbatim>\<open>s.find(c)\<close> is the position of the first \<open>c\<close>, or \<open>-1\<close>.\<close>

definition py_find :: "string \<Rightarrow> char \<Rightarrow> int" where
  "py_find s c = (if c \<in> set s then int (length (takeWhile (\<lambda>x. x \<noteq> c) s)) else - 1)"

text \<open>\<^verbatim>\<open>s[a:b]\<close>: a negative bound counts from the end, and both are clamped.\<close>

definition py_bound :: "string \<Rightarrow> int \<Rightarrow> nat" where
  "py_bound s i = (let n = int (length s); j = (if i < 0 then i + n else i)
                   in nat (min n (max 0 j)))"

definition py_slice :: "string \<Rightarrow> int \<Rightarrow> int \<Rightarrow> string" where
  "py_slice s a b = take (py_bound s b - py_bound s a) (drop (py_bound s a) s)"

text \<open>\<^verbatim>\<open>s.replace(old, new)\<close> for a one-character \<open>old\<close>: every occurrence goes.\<close>

definition py_replace :: "string \<Rightarrow> char \<Rightarrow> string \<Rightarrow> string" where
  "py_replace s old new = concat (map (\<lambda>c. if c = old then new else [c]) s)"

text \<open>\<^verbatim>\<open>s.split(sep, 1)\<close>: at most one cut, at the first separator.\<close>

definition py_split1 :: "string \<Rightarrow> char \<Rightarrow> string list" where
  "py_split1 s sep =
     (if sep \<in> set s
      then [takeWhile (\<lambda>x. x \<noteq> sep) s, tl (dropWhile (\<lambda>x. x \<noteq> sep) s)]
      else [s])"

text \<open>
  \<^verbatim>\<open>int(s)\<close> of a \<^verbatim>\<open>str\<close> in base 10, as CPython 3.11 does it. A character
  of the model is a code point below 256; text with other code points is outside the
  model. Blanks around the number are skipped: the ASCII ones that C's \<^verbatim>\<open>isspace\<close>
  knows (code points 9 to 13 and 32) and, of the others, the two blanks below 256, U+0085
  and U+00A0. The separators U+001C to U+001F are not skipped, although
  \<^verbatim>\<open>str.strip\<close> would drop them. Then come one optional sign and the decimal digits
  \<open>0\<close> to \<open>9\<close>, where single underscores may stand between digits. More than 4300
  digits are refused (the default of \<^verbatim>\<open>sys.get_int_max_str_digits\<close>). Anything else
  raises \<^verbatim>\<open>ValueError\<close>, and \<^verbatim>\<open>int\<close> of a \<^verbatim>\<open>str\<close> raises nothing else.
\<close>

definition is_space :: "char \<Rightarrow> bool" where
  "is_space c = (let n = of_char c :: nat
                 in (9 \<le> n \<and> n \<le> 13) \<or> n = 32 \<or> n = 133 \<or> n = 160)"

definition is_digit :: "char \<Rightarrow> bool" where
  "is_digit c = (let n = of_char c :: nat in 48 \<le> n \<and> n \<le> 57)"

definition py_strip :: "string \<Rightarrow> string" where
  "py_strip s = rev (dropWhile is_space (rev (dropWhile is_space s)))"

fun digits_ok :: "string \<Rightarrow> bool" where
  "digits_ok [] = False"
| "digits_ok [c] = is_digit c"
| "digits_ok (c # d # r) =
     (is_digit c \<and> (if d = CHR ''_'' then digits_ok r else digits_ok (d # r)))"

definition digits_value :: "string \<Rightarrow> nat" where
  "digits_value s = foldl (\<lambda>acc c. 10 * acc + (of_char c - 48)) 0 (filter is_digit s)"

definition max_str_digits :: nat where
  "max_str_digits = 4300"

definition py_int :: "string \<Rightarrow> error + int" where
  "py_int s =
     (let t = py_strip s;
          neg = (t \<noteq> [] \<and> hd t = CHR ''-'');
          body = (if t \<noteq> [] \<and> (hd t = CHR ''-'' \<or> hd t = CHR ''+'') then tl t else t)
      in if digits_ok body \<and> length (filter is_digit body) \<le> max_str_digits
         then Inr (if neg then - int (digits_value body) else int (digits_value body))
         else Inl ValueError)"

text \<open>\<^verbatim>\<open>str(n)\<close> of an integer: its decimal digits, after a minus sign when negative.\<close>

fun str_nat :: "nat \<Rightarrow> string" where
  "str_nat n = (if n < 10 then [char_of (48 + n)]
                else str_nat (n div 10) @ [char_of (48 + n mod 10)])"

declare str_nat.simps [simp del]

definition py_str :: "int \<Rightarrow> string" where
  "py_str i = (if i < 0 then CHR ''-'' # str_nat (nat (- i)) else str_nat (nat i))"

subsection \<open>The world: files, directories, requests, pauses\<close>

text \<open>
  Paths are taken as they are written by the program: relative, with single separators
  and no dot segments. On such a path \<^verbatim>\<open>os.path.relpath\<close> only removes trailing
  separators, and the file a path names is the one stored under that normal form.
\<close>

definition relpath :: "string \<Rightarrow> string" where
  "relpath p = rev (dropWhile (\<lambda>c. c = CHR ''/'') (rev p))"

datatype event = Fetch string | Write string string | Sleep nat

record world =
  files :: "string \<rightharpoonup> string"
  dirs :: "string set"
  trace :: "event list"
  rand :: "nat \<Rightarrow> nat"
  draws :: nat

type_synonym web = "string \<rightharpoonup> node"

text \<open>The directories a path lies in: its proper prefixes that end before a separator.\<close>

fun parents_from :: "string \<Rightarrow> string \<Rightarrow> string list" where
  "parents_from pre [] = []"
| "parents_from pre (c # cs) =
     (if c = CHR ''/'' \<and> pre \<noteq> [] then [pre] else []) @ parents_from (pre @ [c]) cs"

definition parents :: "string \<Rightarrow> string list" where
  "parents p = parents_from [] p"

definition path_exists :: "world \<Rightarrow> string \<Rightarrow> bool" where
  "path_exists w p = (relpath p \<in> dom (files w) \<or> relpath p \<in> dirs w)"

text \<open>\<^verbatim>\<open>open(p, "w")\<close>, \<^verbatim>\<open>write\<close>, \<^verbatim>\<open>close\<close>: the file is created or truncated and
  holds the text afterwards. It fails when \<open>p\<close> is a directory or lies in a directory
  that does not exist.\<close>

definition writable :: "string set \<Rightarrow> string \<Rightarrow> bool" where
  "writable ds p = (relpath p \<notin> ds \<and> set (parents (relpath p)) \<subseteq> ds)"

definition open_write :: "string \<Rightarrow> string \<Rightarrow> world \<Rightarrow> (error + unit) \<times> world" where
  "open_write p text w =
     (if writable (dirs w) p
      then (Inr (), w\<lparr>files := (files w)(relpath p \<mapsto> text),
                      trace := trace w @ [Write (relpath p) text]\<rparr>)
      else (Inl OSError, w))"

text \<open>\<^verbatim>\<open>os.makedirs(p)\<close>: the directory and the missing ones above it are created; it
  fails when \<open>p\<close> exists or a file stands in the way.\<close>

definition makedirs :: "string \<Rightarrow> world \<Rightarrow> (error + unit) \<times> world" where
  "makedirs p w =
     (if path_exists w p \<or> (\<exists>d \<in> set (parents (relpath p)). d \<in> dom (files w))
      then (Inl OSError, w)
      else (Inr (), w\<lparr>dirs := dirs w \<union> set (parents (relpath p)) \<union> {relpath p}\<rparr>))"

text \<open>\<^verbatim>\<open>urlopen(url)\<close> followed by the parse of what it read: the request is made, and
  a page that cannot be fetched raises.\<close>

definition urlopen :: "web \<Rightarrow> string \<Rightarrow> world \<Rightarrow> (error + node) \<times> world" where
  "urlopen net url w =
     (let w1 = w\<lparr>trace := trace w @ [Fetch url]\<rparr>
      in case net url of None \<Rightarrow> (Inl URLError, w1) | Some page \<Rightarrow> (Inr page, w1))"

text \<open>\<^verbatim>\<open>random.randint(lo, hi)\<close> draws the next number of the world's random source;
  \<^verbatim>\<open>time.sleep(t)\<close> only passes time, which the trace records.\<close>

definition randint :: "nat \<Rightarrow> nat \<Rightarrow> world \<Rightarrow> nat \<times> world" where
  "randint lo hi w = (lo + rand w (draws w) mod (hi - lo + 1), w\<lparr>draws := draws w + 1\<rparr>)"

definition time_sleep :: "nat \<Rightarrow> world \<Rightarrow> world" where
  "time_sleep t w = w\<lparr>trace := trace w @ [Sleep t]\<rparr>"

section \<open>The program\<close>

subsection \<open>\<^verbatim>\<open>save_file\<close>\<close>

definition save_file :: "string \<Rightarrow> string \<Rightarrow> bool \<Rightarrow> world \<Rightarrow> (error + unit) \<times> world" where
  "save_file path text replace w =
     (if \<not> replace then
        (if path_exists w (relpath (path @ ''.txt''))
         then open_write (path @ ''_2'' @ ''.txt'') text w
         else open_write (path @ ''.txt'') text w)
      else open_write (path @ ''.txt'') text w)"

subsection \<open>\<^verbatim>\<open>get_lyrics\<close>\<close>

text \<open>
  Lines 28 to 38 read the page and touch nothing else: they give the lyrics, the title,
  the file title, the year and the decade, or the exception of the first step that
  fails.
\<close>

record song =
  song_title :: string
  song_lyrics :: string
  song_file_title :: string
  song_year :: "int option"
  song_decade :: string

text \<open>Lines 31 to 38: the year and the decade, from the album marker.\<close>

definition album_info :: "node \<Rightarrow> error + (int option \<times> string)" where
  "album_info soup =
     (let album = find_all_class ''songinalbum_title'' soup
      in if length album = 1 then
           (let album_text = get_text (album ! 0)
            in case py_int (py_slice album_text (py_find album_text (CHR ''('') + 1)
                                                (py_find album_text (CHR '')''))) of
                 Inl e \<Rightarrow> Inl e
               | Inr year \<Rightarrow> Inr (Some year, take 3 (py_str year) @ ''0s''))
         else Inr (None, ''others''))"

definition song_fields :: "node \<Rightarrow> error + song" where
  "song_fields soup =
     (case py_index (find_all ''div'' soup) 20 of
        Inl e \<Rightarrow> Inl e
      | Inr d \<Rightarrow>
     (case py_index (find_all ''b'' soup) 1 of
        Inl e \<Rightarrow> Inl e
      | Inr b \<Rightarrow>
     (let lyrics = get_text d;
          title = py_replace (get_text b) (CHR 0x22) [];
          file_title = py_replace title (CHR '' '') ''_''
      in case album_info soup of
           Inl e \<Rightarrow> Inl e
         | Inr (year, decade) \<Rightarrow>
             Inr \<lparr>song_title = title, song_lyrics = lyrics, song_file_title = file_title,
                  song_year = year, song_decade = decade\<rparr>)))"

text \<open>Lines 42 to 46 and 48 to 52: create the folder when it is missing, then save.\<close>

definition save_in :: "string \<Rightarrow> string \<Rightarrow> string \<Rightarrow> bool \<Rightarrow> world \<Rightarrow> (error + unit) \<times> world" where
  "save_in dir path text replace w =
     (if path_exists w (relpath dir) then save_file path text replace w
      else (case makedirs (relpath dir) w of
              (Inl e, w1) \<Rightarrow> (Inl e, w1)
            | (Inr u, w1) \<Rightarrow> save_file path text replace w1))"

text \<open>The value is \<^verbatim>\<open>(title, lyrics, year)\<close> when nothing is saved, and \<^verbatim>\<open>None\<close>
  (the function runs off its end) when the song is saved.\<close>

definition get_lyrics ::
  "web \<Rightarrow> string \<Rightarrow> bool \<Rightarrow> bool \<Rightarrow> bool \<Rightarrow> string \<Rightarrow> world
     \<Rightarrow> (error + (string \<times> string \<times> int option) option) \<times> world" where
  "get_lyrics net song_url save by_decade replace folder w =
     (case urlopen net song_url w of
        (Inl e, w1) \<Rightarrow> (Inl e, w1)
      | (Inr soup, w1) \<Rightarrow>
     (case song_fields soup of
        Inl e \<Rightarrow> (Inl e, w1)
      | Inr s \<Rightarrow>
     (if \<not> save then (Inr (Some (song_title s, song_lyrics s, song_year s)), w1)
      else
        (case save_in (folder @ ''/all/'') (folder @ ''/all/'' @ song_file_title s)
                      (song_lyrics s) replace w1 of
           (Inl e, w2) \<Rightarrow> (Inl e, w2)
         | (Inr u, w2) \<Rightarrow>
        (if by_decade then
           (case save_in (folder @ ''/decades/'' @ song_decade s)
                         (folder @ ''/decades/'' @ song_decade s @ ''/'' @ song_file_title s)
                         (song_lyrics s) replace w2 of
              (Inl e, w3) \<Rightarrow> (Inl e, w3)
            | (Inr u, w3) \<Rightarrow> (Inr None, w3))
         else (Inr None, w2))))))"

subsection \<open>\<^verbatim>\<open>scrape_artist\<close>\<close>

datatype sleep_policy = Random | Fixed nat

definition home_url :: string where
  "home_url = ''https://www.azlyrics.com/''"

text \<open>Line 62, for one container: \<^verbatim>\<open>home + d.a['href'].split("/", 1)[1]\<close>.\<close>

definition song_url_of :: "string \<Rightarrow> node \<Rightarrow> error + string" where
  "song_url_of home d =
     (case first_a d of
        None \<Rightarrow> Inl TypeError
      | Some a \<Rightarrow>
     (case get_attr a ''href'' of
        None \<Rightarrow> Inl KeyError
      | Some h \<Rightarrow>
     (case py_index (py_split1 h (CHR ''/'')) 1 of
        Inl e \<Rightarrow> Inl e
      | Inr r \<Rightarrow> Inr (home @ r))))"

text \<open>The loop of lines 61 and 62, appending to \<open>urls\<close>.\<close>

fun collect_urls :: "string \<Rightarrow> node list \<Rightarrow> string list \<Rightarrow> error + string list" where
  "collect_urls home [] urls = Inr urls"
| "collect_urls home (d # ds) urls =
     (case song_url_of home d of
        Inl e \<Rightarrow> Inl e
      | Inr u \<Rightarrow> collect_urls home ds (urls @ [u]))"

text \<open>The loop of lines 65 to 74: fetch and save one song, then pause. The progress
  line that is printed has no effect and is left out.\<close>

fun songs_loop ::
  "web \<Rightarrow> string list \<Rightarrow> sleep_policy \<Rightarrow> bool \<Rightarrow> bool \<Rightarrow> string \<Rightarrow> world
     \<Rightarrow> (error + unit) \<times> world" where
  "songs_loop net [] sleep by_decade replace folder w = (Inr (), w)"
| "songs_loop net (url # rest) sleep by_decade replace folder w =
     (case get_lyrics net url True by_decade replace folder w of
        (Inl e, w1) \<Rightarrow> (Inl e, w1)
      | (Inr r, w1) \<Rightarrow>
          (let (rt, w2) = (case sleep of Random \<Rightarrow> randint 5 15 w1 | Fixed t \<Rightarrow> (t, w1))
           in songs_loop net rest sleep by_decade replace folder (time_sleep rt w2)))"

definition scrape_artist ::
  "web \<Rightarrow> string \<Rightarrow> sleep_policy \<Rightarrow> bool \<Rightarrow> bool \<Rightarrow> string \<Rightarrow> world
     \<Rightarrow> (error + unit) \<times> world" where
  "scrape_artist net az_url sleep by_decade replace folder w =
     (case urlopen net az_url w of
        (Inl e, w1) \<Rightarrow> (Inl e, w1)
      | (Inr bs, w1) \<Rightarrow>
     (case collect_urls home_url (find_all_tag_class ''div'' ''listalbum-item'' bs) [] of
        Inl e \<Rightarrow> (Inl e, w1)
      | Inr urls \<Rightarrow> songs_loop net urls sleep by_decade replace folder w1))"

subsection \<open>\<^verbatim>\<open>get_artists\<close>\<close>

text \<open>The loop of lines 84 to 86, appending to both lists.\<close>

fun collect_artists ::
  "string \<Rightarrow> node list \<Rightarrow> string list \<Rightarrow> string list \<Rightarrow> error + (string list \<times> string list)" where
  "collect_artists home [] artists_urls artists_names = Inr (artists_urls, artists_names)"
| "collect_artists home (link # links) artists_urls artists_names =
     (case get_attr link ''href'' of
        None \<Rightarrow> Inl KeyError
      | Some h \<Rightarrow>
          collect_artists home links (artists_urls @ [home @ h])
                          (artists_names @ [get_text link]))"

definition get_artists ::
  "web \<Rightarrow> string \<Rightarrow> string \<Rightarrow> world \<Rightarrow> (error + (string list \<times> string list)) \<times> world" where
  "get_artists net letter home w =
     (case urlopen net (home @ letter @ ''.html'') w of
        (Inl e, w1) \<Rightarrow> (Inl e, w1)
      | (Inr soup, w1) \<Rightarrow>
     (case py_index (find_all_tag_class ''div'' ''row'' soup) 1 of
        Inl e \<Rightarrow> (Inl e, w1)
      | Inr row \<Rightarrow>
     (case collect_artists home (find_all ''a'' row) [] [] of
        Inl e \<Rightarrow> (Inl e, w1)
      | Inr r \<Rightarrow> (Inr r, w1))))"

subsection \<open>\<^verbatim>\<open>scrape_all\<close>\<close>

datatype letters = All | Given "string list"

definition ascii_lowercase :: string where
  "ascii_lowercase = ''abcdefghijklmnopqrstuvwxyz''"

text \<open>Lines 92 to 95: one token for each letter, then \<^verbatim>\<open>str(19)\<close>.\<close>

definition all_lets :: "string list" where
  "all_lets = map (\<lambda>c. [c]) ascii_lowercase @ [py_str 19]"

text \<open>The loop of lines 102 to 110 over \<open>artists_urls\<close>, with its counter \<open>i\<close>.\<close>

fun artists_loop ::
  "web \<Rightarrow> string list \<Rightarrow> string list \<Rightarrow> nat \<Rightarrow> sleep_policy \<Rightarrow> bool \<Rightarrow> bool \<Rightarrow> string \<Rightarrow> world
     \<Rightarrow> (error + unit) \<times> world" where
  "artists_loop net [] artists_names i sleep by_decade replace folder w = (Inr (), w)"
| "artists_loop net (az_url # rest) artists_names i sleep by_decade replace folder w =
     (case py_index artists_names i of
        Inl e \<Rightarrow> (Inl e, w)
      | Inr name \<Rightarrow>
     (let fold_name = (if folder = ''names'' then name else folder)
      in case scrape_artist net az_url sleep by_decade replace fold_name w of
           (Inl e, w1) \<Rightarrow> (Inl e, w1)
         | (Inr u, w1) \<Rightarrow>
             artists_loop net rest artists_names (i + 1) sleep by_decade replace folder w1))"

text \<open>The loop of lines 98 to 110 over \<open>lets\<close>.\<close>

fun lets_loop ::
  "web \<Rightarrow> string list \<Rightarrow> sleep_policy \<Rightarrow> bool \<Rightarrow> bool \<Rightarrow> string \<Rightarrow> world
     \<Rightarrow> (error + unit) \<times> world" where
  "lets_loop net [] sleep by_decade replace folder w = (Inr (), w)"
| "lets_loop net (l # rest) sleep by_decade replace folder w =
     (case get_artists net l home_url w of
        (Inl e, w1) \<Rightarrow> (Inl e, w1)
      | (Inr (artists_urls, artists_names), w1) \<Rightarrow>
     (case artists_loop net artists_urls artists_names 0 sleep by_decade replace folder w1 of
        (Inl e, w2) \<Rightarrow> (Inl e, w2)
      | (Inr u, w2) \<Rightarrow> lets_loop net rest sleep by_decade replace folder w2))"

definition scrape_all ::
  "web \<Rightarrow> letters \<Rightarrow> sleep_policy \<Rightarrow> bool \<Rightarrow> bool \<Rightarrow> string \<Rightarrow> world
     \<Rightarrow> (error + unit) \<times> world" where
  "scrape_all net letters sleep by_decade replace folder w =
     (let lets = (case letters of All \<Rightarrow> all_lets | Given ls \<Rightarrow> ls)
      in lets_loop net lets sleep by_decade replace folder w)"

section \<open>Fixtures\<close>


text \<open>
  Song pages in the shape of the site's template: twenty containers, the container of
  the lyrics, two bold elements (the second is the title, which the site puts in
  quotes), then whatever stands for the album.
\<close>

definition quoted :: "string \<Rightarrow> string" where
  "quoted s = CHR 0x22 # s @ [CHR 0x22]"

definition song_page :: "string \<Rightarrow> node list \<Rightarrow> node" where
  "song_page title_text album =
     Tag ''[document]'' [] []
       (replicate 20 (Tag ''div'' [] [] []) @
        [Tag ''div'' [] [] [Text ''la la'', Tag ''br'' [] [] [], Text ''la'']] @
        [Tag ''b'' [] [] [Text ''Artist Lyrics''], Tag ''b'' [] [] [Text title_text]] @
        album)"

definition album_marker :: "string \<Rightarrow> node" where
  "album_marker t = Tag ''div'' [''songinalbum_title''] [] [Text t]"

definition page_song :: node where
  "page_song = song_page (quoted ''Song Title'') [album_marker ''album: X (1987)'']"

definition page_no_album :: node where
  "page_no_album = song_page (quoted ''Song Title'') []"

definition page_two_albums :: node where
  "page_two_albums =
     song_page (quoted ''Song Title'') [album_marker ''A (1987)'', album_marker ''B (1991)'']"

definition page_no_parens :: node where
  "page_no_parens = song_page (quoted ''Song Title'') [album_marker ''19870'']"

definition page_bad_album :: node where
  "page_bad_album = song_page (quoted ''Song Title'') [album_marker ''album: X (unknown)'']"

definition page_inner_quotes :: node where
  "page_inner_quotes = song_page (quoted (''Say '' @ quoted ''Hi'' @ '' now'')) []"

definition page_short :: node where
  "page_short =
     Tag ''[document]'' [] []
       (replicate 20 (Tag ''div'' [] [] [Text ''la'']) @
        [Tag ''b'' [] [] [Text ''Artist Lyrics''], Tag ''b'' [] [] [Text (quoted ''Song Title'')]])"

definition page_open_paren :: node where
  "page_open_paren = song_page (quoted ''Song Title'') [album_marker ''(1987'']"

definition page_short_bad_album :: node where
  "page_short_bad_album =
     Tag ''[document]'' [] []
       (replicate 19 (Tag ''div'' [] [] [Text ''la'']) @
        [Tag ''b'' [] [] [Text ''Artist Lyrics''], Tag ''b'' [] [] [Text (quoted ''Song Title'')],
         album_marker ''album: X (unknown)''])"

definition net_songs :: web where
  "net_songs = [''song'' \<mapsto> page_song, ''no_album'' \<mapsto> page_no_album,
                ''two_albums'' \<mapsto> page_two_albums, ''no_parens'' \<mapsto> page_no_parens,
                ''bad_album'' \<mapsto> page_bad_album, ''inner_quotes'' \<mapsto> page_inner_quotes,
                ''short'' \<mapsto> page_short, ''open_paren'' \<mapsto> page_open_paren,
                ''short_bad_album'' \<mapsto> page_short_bad_album]"

definition w_empty :: world where
  "w_empty = \<lparr>files = Map.empty, dirs = {}, trace = [], rand = (\<lambda>n. n), draws = 0\<rparr>"

text \<open>Index pages: a first row with the navigation, a second row with the artists.\<close>

definition a_link :: "string \<Rightarrow> string \<Rightarrow> node" where
  "a_link href t = Tag ''a'' [] [(''href'', href)] [Text t]"

definition index_page :: "node list \<Rightarrow> node" where
  "index_page artists =
     Tag ''[document]'' [] []
       [Tag ''div'' [''row''] [] [a_link ''index.html'' ''Home''],
        Tag ''div'' [''container'', ''row''] [] artists]"

definition page_index_a :: node where
  "page_index_a = index_page [a_link ''a/one.html'' ''Artist One'', a_link ''a/two.html'' ''Artist Two'']"

definition page_index_anchor :: node where
  "page_index_anchor =
     index_page [a_link ''a/one.html'' ''Artist One'', Tag ''a'' [] [(''name'', ''top'')] [Text ''Top'']]"

definition page_index_one_row :: node where
  "page_index_one_row =
     Tag ''[document]'' [] [] [Tag ''div'' [''row''] [] [a_link ''a/one.html'' ''Artist One'']]"

definition net_index :: web where
  "net_index = [''https://www.azlyrics.com/a.html'' \<mapsto> page_index_a,
                ''https://www.azlyrics.com/b.html'' \<mapsto> page_index_anchor,
                ''https://www.azlyrics.com/c.html'' \<mapsto> page_index_one_row]"

text \<open>Artist pages: one container for each listed song.\<close>

definition album_item :: "node list \<Rightarrow> node" where
  "album_item content = Tag ''div'' [''listalbum-item''] [] content"

definition page_artist_one :: node where
  "page_artist_one =
     Tag ''[document]'' [] []
       [Tag ''div'' [] [] [Text ''Artist One Lyrics''],
        album_item [Tag ''a'' [] [(''href'', ''/lyrics/one/song.html''), (''target'', ''_blank'')]
                      [Text ''Song Title'']]]"

definition page_artist_none :: node where
  "page_artist_none = Tag ''[document]'' [] [] [Tag ''div'' [] [] [Text ''Artist Two Lyrics'']]"

definition page_artist_unlinked :: node where
  "page_artist_unlinked =
     Tag ''[document]'' [] []
       [album_item [a_link ''/lyrics/one/song.html'' ''Song Title''],
        album_item [Text ''Untitled'']]"

text \<open>A small site: the letter \<open>a\<close> lists two artists, the first with one song and the
  second with none; every other index page lists nobody.\<close>

definition net_site :: web where
  "net_site url =
     (if url = ''https://www.azlyrics.com/a.html'' then Some page_index_a
      else if url \<in> set (map (\<lambda>t. ''https://www.azlyrics.com/'' @ t @ ''.html'') all_lets)
           then Some (index_page [])
      else if url = ''https://www.azlyrics.com/a/one.html'' then Some page_artist_one
      else if url = ''https://www.azlyrics.com/a/two.html'' then Some page_artist_none
      else if url = ''https://www.azlyrics.com/lyrics/one/song.html'' then Some page_song
      else if url = ''unlinked'' then Some page_artist_unlinked
      else None)"

section \<open>The specification's words\<close>

text \<open>The title "with surrounding quote characters stripped", as the specification puts
  it: the quote characters at both ends go, those inside stay.\<close>

definition spec_strip_quotes :: "string \<Rightarrow> string" where
  "spec_strip_quotes s =
     rev (dropWhile (\<lambda>c. c = CHR 0x22) (rev (dropWhile (\<lambda>c. c = CHR 0x22) s)))"

text \<open>An ArtistRef, "the pairing between each link's URL and its visible text": the URL
  is the base followed by the link's target.\<close>

definition spec_artist_ref :: "string \<Rightarrow> node \<Rightarrow> string \<times> string" where
  "spec_artist_ref home link =
     (home @ (case get_attr link ''href'' of Some h \<Rightarrow> h | None \<Rightarrow> []), get_text link)"

text \<open>A SongRef, "each one's link target, resolved against the site's base URL by
  stripping the first path segment of the raw link and prepending the base": what
  follows the first separator of the target, after the base. A container has such a
  target when it holds a link whose \<^verbatim>\<open>href\<close> contains a separator.\<close>

definition spec_song_url :: "string \<Rightarrow> node \<Rightarrow> string" where
  "spec_song_url home d =
     home @ (case first_a d of
               None \<Rightarrow> []
             | Some a \<Rightarrow> (case get_attr a ''href'' of
                            None \<Rightarrow> []
                          | Some h \<Rightarrow> tl (dropWhile (\<lambda>c. c \<noteq> CHR ''/'') h)))"

definition has_song_link :: "node \<Rightarrow> bool" where
  "has_song_link d =
     (case first_a d of
        None \<Rightarrow> False
      | Some a \<Rightarrow> (case get_attr a ''href'' of
                     None \<Rightarrow> False
                   | Some h \<Rightarrow> CHR ''/'' \<in> set h))"

text \<open>
  The crawl as the specification describes it: "for each token in order, fetch its
  ArtistRefs; for each ArtistRef in order, fetch its SongRefs; for each SongRef, fetch
  and persist, then pace". Written as the sequence of steps that a crawl without error
  must show, with the saved paths and texts and the length of the pauses left open: a
  song is fetched, saved once (twice when split by decade), and a pause follows.
\<close>

datatype step = Fetched string | Saved | Paused

fun step_of :: "event \<Rightarrow> step" where
  "step_of (Fetch url) = Fetched url"
| "step_of (Write p t) = Saved"
| "step_of (Sleep n) = Paused"

definition spec_all_tokens :: "string list" where
  "spec_all_tokens =
     [''a'', ''b'', ''c'', ''d'', ''e'', ''f'', ''g'', ''h'', ''i'', ''j'', ''k'', ''l'', ''m'',
      ''n'', ''o'', ''p'', ''q'', ''r'', ''s'', ''t'', ''u'', ''v'', ''w'', ''x'', ''y'', ''z'',
      ''19'']"

definition spec_artists :: "web \<Rightarrow> string \<Rightarrow> string list" where
  "spec_artists net token =
     (case net (home_url @ token @ ''.html'') of
        None \<Rightarrow> []
      | Some soup \<Rightarrow>
          (case find_all_tag_class ''div'' ''row'' soup of
             r0 # r1 # rs \<Rightarrow> map (\<lambda>l. fst (spec_artist_ref home_url l)) (find_all ''a'' r1)
           | _ \<Rightarrow> []))"

definition spec_songs :: "web \<Rightarrow> string \<Rightarrow> string list" where
  "spec_songs net artist_url =
     (case net artist_url of
        None \<Rightarrow> []
      | Some bs \<Rightarrow> map (spec_song_url home_url)
                      (find_all_tag_class ''div'' ''listalbum-item'' bs))"

definition spec_song_steps :: "bool \<Rightarrow> string \<Rightarrow> step list" where
  "spec_song_steps split_by_decade song_url =
     [Fetched song_url, Saved] @ (if split_by_decade then [Saved] else []) @ [Paused]"

definition spec_artist_steps :: "web \<Rightarrow> bool \<Rightarrow> string \<Rightarrow> step list" where
  "spec_artist_steps net split_by_decade artist_url =
     Fetched artist_url
       # concat (map (spec_song_steps split_by_decade) (spec_songs net artist_url))"

definition spec_token_steps :: "web \<Rightarrow> bool \<Rightarrow> string \<Rightarrow> step list" where
  "spec_token_steps net split_by_decade token =
     Fetched (home_url @ token @ ''.html'')
       # concat (map (spec_artist_steps net split_by_decade) (spec_artists net token))"

definition spec_crawl_steps :: "web \<Rightarrow> bool \<Rightarrow> string list \<Rightarrow> step list" where
  "spec_crawl_steps net split_by_decade tokens =
     concat (map (spec_token_steps net split_by_decade) tokens)"


section \<open>Properties\<close>

subsection \<open>Paths\<close>

lemma relpath_idem [simp]: "relpath (relpath p) = relpath p"
  by (simp add: relpath_def dropWhile_idem)

lemma relpath_snoc [simp]: "c \<noteq> CHR ''/'' \<Longrightarrow> relpath (p @ [c]) = p @ [c]"
  by (simp add: relpath_def)

lemma relpath_txt [simp]: "relpath (p @ ''.txt'') = p @ ''.txt''"
  using relpath_snoc [of "CHR ''t''" "p @ ''.tx''"] by simp

lemma relpath_2txt [simp]: "relpath (p @ ''_2.txt'') = p @ ''_2.txt''"
  using relpath_txt [of "p @ ''_2''"] by simp

subsection \<open>Saving\<close>



subsection \<open>Strings\<close>


lemma py_replace_del: "py_replace s c [] = filter (\<lambda>x. x \<noteq> c) s"
  by (induction s) (simp_all add: py_replace_def)

lemma py_find_at: "c \<notin> set pre \<Longrightarrow> py_find (pre @ c # rest) c = int (length pre)"
  by (induction pre) (auto simp: py_find_def)

lemma py_bound_in: "0 \<le> i \<Longrightarrow> i \<le> int (length s) \<Longrightarrow> py_bound s i = nat i"
  by (simp add: py_bound_def Let_def)

lemma digit_not_space: "is_digit c \<Longrightarrow> \<not> is_space c"
  by (auto simp: is_digit_def is_space_def Let_def)

lemma strip_digits:
  assumes "\<forall>c \<in> set ds. is_digit c"
  shows "py_strip ds = ds"
proof -
  have a: "dropWhile is_space ds = ds"
    using assms by (cases ds) (simp_all add: digit_not_space)
  have "dropWhile is_space (rev ds) = rev ds"
    using assms by (cases "rev ds") (auto simp: digit_not_space)
  with a show ?thesis by (simp add: py_strip_def)
qed

lemma py_int_too_long:
  assumes "\<forall>c \<in> set ds. is_digit c" and "4300 < length ds"
  shows "py_int ds = Inl ValueError"
proof -
  have f: "filter is_digit ds = ds" using assms(1) by simp
  have d: "\<not> (ds \<noteq> [] \<and> (hd ds = CHR ''-'' \<or> hd ds = CHR ''+''))"
    using assms(1) by (cases ds) (auto simp: is_digit_def Let_def)
  show ?thesis
    using assms(2) d f
    by (auto simp: py_int_def strip_digits [OF assms(1)] Let_def max_str_digits_def)
qed

lemma py_int_separators:
  "py_int (''1987'' @ [CHR 0x1F]) = Inl ValueError
   \<and> py_int ([CHR 0xA0] @ ''1987'' @ [CHR 0x85]) = Inr 1987
   \<and> py_int '' +1_987 '' = Inr 1987
   \<and> py_int ''1__987'' = Inl ValueError"
  by code_simp

lemma paren_slice:
  assumes "CHR ''('' \<notin> set pre" "CHR '')'' \<notin> set pre" "CHR '')'' \<notin> set mid"
  shows "py_slice (pre @ CHR ''('' # mid @ CHR '')'' # post)
           (py_find (pre @ CHR ''('' # mid @ CHR '')'' # post) (CHR ''('') + 1)
           (py_find (pre @ CHR ''('' # mid @ CHR '')'' # post) (CHR '')'')) = mid"
proof -
  let ?t = "pre @ CHR ''('' # mid @ CHR '')'' # post"
  have a: "py_find ?t (CHR ''('') = int (length pre)"
    using assms(1) by (rule py_find_at)
  have "py_find ((pre @ CHR ''('' # mid) @ CHR '')'' # post) (CHR '')'')
          = int (length (pre @ CHR ''('' # mid))"
    using assms(2,3) by (intro py_find_at) simp
  then have b: "py_find ?t (CHR '')'') = int (length pre + 1 + length mid)"
    by simp
  have c: "py_bound ?t (int (length pre) + 1) = length pre + 1"
    by (subst py_bound_in) simp_all
  have d: "py_bound ?t (int (length pre + 1 + length mid)) = length pre + 1 + length mid"
    by (subst py_bound_in) simp_all
  show ?thesis
    unfolding py_slice_def a b c d by simp
qed


subsection \<open>What is read from a song page\<close>

lemma song_fields_Inr:
  assumes "song_fields soup = Inr s"
  shows "20 < length (find_all ''div'' soup) \<and> 1 < length (find_all ''b'' soup)
       \<and> song_lyrics s = get_text (find_all ''div'' soup ! 20)
       \<and> song_title s = py_replace (get_text (find_all ''b'' soup ! 1)) (CHR 0x22) []
       \<and> song_file_title s = py_replace (song_title s) (CHR '' '') ''_''
       \<and> album_info soup = Inr (song_year s, song_decade s)"
  using assms
  by (auto simp: song_fields_def py_index_def Let_def split: if_splits sum.splits prod.splits)

lemma album_info_one:
  assumes "length (find_all_class ''songinalbum_title'' soup) = 1"
    and "album_info soup = Inr (yr, dec)"
  shows "\<exists>y. py_int (py_slice (get_text (find_all_class ''songinalbum_title'' soup ! 0))
                 (py_find (get_text (find_all_class ''songinalbum_title'' soup ! 0)) (CHR ''('') + 1)
                 (py_find (get_text (find_all_class ''songinalbum_title'' soup ! 0)) (CHR '')'')))
               = Inr y
           \<and> yr = Some y \<and> dec = take 3 (py_str y) @ ''0s''"
proof (cases "py_int (py_slice (get_text (find_all_class ''songinalbum_title'' soup ! 0))
                 (py_find (get_text (find_all_class ''songinalbum_title'' soup ! 0)) (CHR ''('') + 1)
                 (py_find (get_text (find_all_class ''songinalbum_title'' soup ! 0)) (CHR '')'')))")
  case (Inl e)
  with assms show ?thesis by (simp add: album_info_def Let_def)
next
  case (Inr y)
  with assms show ?thesis by (simp add: album_info_def Let_def)
qed

lemma album_info_other:
  assumes "length (find_all_class ''songinalbum_title'' soup) \<noteq> 1"
  shows "album_info soup = Inr (None, ''others'')"
  using assms by (simp add: album_info_def Let_def)

text \<open>
  C2, as stated, fails. The year is not always parsed from a parenthesized part: the
  marker text \<open>(1987\<close> has none, since it has no closing parenthesis, yet the page is
  read and the year is 198 (\<^verbatim>\<open>find(")")\<close> gives \<open>-1\<close>, so the slice drops the last
  character). And a page with exactly one marker need not have a year at all: with the
  text \<open>album: X (unknown)\<close> reading the page raises \<open>ValueError\<close>.
\<close>

theorem song_year_counter_parens:
  "net_songs ''open_paren'' = Some page_open_paren
   \<and> find_all_class ''songinalbum_title'' page_open_paren = [album_marker ''(1987'']
   \<and> get_text (album_marker ''(1987'') = ''(1987''
   \<and> CHR '')'' \<notin> set ''(1987''
   \<and> song_fields page_open_paren
       = Inr \<lparr>song_title = ''Song Title'', song_lyrics = ''la lala'',
              song_file_title = ''Song_Title'', song_year = Some 198,
              song_decade = ''1980s''\<rparr>
   \<and> fst (get_lyrics net_songs ''open_paren'' False False False ''songs'' w_empty)
       = Inr (Some (''Song Title'', ''la lala'', Some 198))
   \<and> net_songs ''bad_album'' = Some page_bad_album
   \<and> find_all_class ''songinalbum_title'' page_bad_album
       = [album_marker ''album: X (unknown)'']
   \<and> song_fields page_bad_album = Inl ValueError"
  by code_simp

text \<open>
  C2, amended. Take a song page that lines 28 to 38 read without raising. When exactly
  one element carries the album-marker class, the year is the integer that
  \<^verbatim>\<open>int\<close> parses from the slice of the marker's text taken by line 34, from after
  the first opening parenthesis to the first closing one, and the decade is the first
  three characters of \<^verbatim>\<open>str(year)\<close> followed by \<open>0s\<close>, so 1987 gives \<open>1980s\<close>. The
  slice is the parenthesized part \<open>mid\<close> when the text reads \<open>pre(mid)post\<close> with no
  parenthesis in \<open>pre\<close> and no closing one in \<open>mid\<close>; a text with a parenthesis missing
  has a slice too, and a year when the slice parses. A page with exactly one marker
  whose slice \<^verbatim>\<open>int\<close> rejects is not read without raising. When no element or more
  than one carries the class, the year is \<open>None\<close> and the decade is \<open>others\<close>.
\<close>

theorem song_year_decade:
  "(song_fields soup = Inr s \<and> find_all_class ''songinalbum_title'' soup = [a]
      \<longrightarrow> (\<exists>y. py_int (py_slice (get_text a) (py_find (get_text a) (CHR ''('') + 1)
                                          (py_find (get_text a) (CHR '')''))) = Inr y
                \<and> song_year s = Some y
                \<and> song_decade s = take 3 (py_str y) @ ''0s''))
   \<and> (get_text a = pre @ CHR ''('' # mid @ CHR '')'' # post
        \<and> CHR ''('' \<notin> set pre \<and> CHR '')'' \<notin> set pre \<and> CHR '')'' \<notin> set mid
      \<longrightarrow> py_slice (get_text a) (py_find (get_text a) (CHR ''('') + 1)
                                  (py_find (get_text a) (CHR '')'')) = mid)
   \<and> (find_all_class ''songinalbum_title'' soup = [a]
        \<and> py_int (py_slice (get_text a) (py_find (get_text a) (CHR ''('') + 1)
                                         (py_find (get_text a) (CHR '')''))) = Inl e
      \<longrightarrow> song_fields soup \<noteq> Inr s)
   \<and> (song_fields soup = Inr s \<and> length (find_all_class ''songinalbum_title'' soup) \<noteq> 1
      \<longrightarrow> song_year s = None \<and> song_decade s = ''others'')"
proof (intro conjI impI)
  assume h: "song_fields soup = Inr s \<and> find_all_class ''songinalbum_title'' soup = [a]"
  then have ai: "album_info soup = Inr (song_year s, song_decade s)"
    using song_fields_Inr [of soup s] by simp
  from h have "length (find_all_class ''songinalbum_title'' soup) = 1" by simp
  from album_info_one [OF this ai] h
  show "\<exists>y. py_int (py_slice (get_text a) (py_find (get_text a) (CHR ''('') + 1)
                                          (py_find (get_text a) (CHR '')''))) = Inr y
                \<and> song_year s = Some y
                \<and> song_decade s = take 3 (py_str y) @ ''0s''"
    by simp
next
  assume "get_text a = pre @ CHR ''('' # mid @ CHR '')'' # post
        \<and> CHR ''('' \<notin> set pre \<and> CHR '')'' \<notin> set pre \<and> CHR '')'' \<notin> set mid"
  then show "py_slice (get_text a) (py_find (get_text a) (CHR ''('') + 1)
                                  (py_find (get_text a) (CHR '')'')) = mid"
    by (simp add: paren_slice)
next
  assume h: "find_all_class ''songinalbum_title'' soup = [a]
        \<and> py_int (py_slice (get_text a) (py_find (get_text a) (CHR ''('') + 1)
                                         (py_find (get_text a) (CHR '')''))) = Inl e"
  show "song_fields soup \<noteq> Inr s"
  proof
    assume sf: "song_fields soup = Inr s"
    then have ai: "album_info soup = Inr (song_year s, song_decade s)"
      using song_fields_Inr [of soup s] by simp
    from h have "length (find_all_class ''songinalbum_title'' soup) = 1" by simp
    from album_info_one [OF this ai] h show False by simp
  qed
next
  assume h: "song_fields soup = Inr s
               \<and> length (find_all_class ''songinalbum_title'' soup) \<noteq> 1"
  then have ai: "album_info soup = Inr (song_year s, song_decade s)"
    using song_fields_Inr [of soup s] by simp
  from h have "length (find_all_class ''songinalbum_title'' soup) \<noteq> 1" by simp
  from album_info_other [OF this] ai
  show "song_year s = None" "song_decade s = ''others''" by simp_all
qed

theorem song_year_decade_witness:
  "song_fields page_song = Inr \<lparr>song_title = ''Song Title'', song_lyrics = ''la lala'',
        song_file_title = ''Song_Title'', song_year = Some 1987, song_decade = ''1980s''\<rparr>
   \<and> find_all_class ''songinalbum_title'' page_song = [album_marker ''album: X (1987)'']
   \<and> get_text (album_marker ''album: X (1987)'')
       = ''album: X '' @ CHR ''('' # ''1987'' @ CHR '')'' # []
   \<and> py_slice (get_text (album_marker ''album: X (1987)''))
         (py_find (get_text (album_marker ''album: X (1987)'')) (CHR ''('') + 1)
         (py_find (get_text (album_marker ''album: X (1987)'')) (CHR '')'')) = ''1987''
   \<and> py_int ''1987'' = Inr 1987
   \<and> take 3 (py_str 1987) @ ''0s'' = ''1980s''
   \<and> song_fields page_no_album = Inr \<lparr>song_title = ''Song Title'', song_lyrics = ''la lala'',
        song_file_title = ''Song_Title'', song_year = None, song_decade = ''others''\<rparr>
   \<and> length (find_all_class ''songinalbum_title'' page_no_album) = 0
   \<and> find_all_class ''songinalbum_title'' page_bad_album
       = [album_marker ''album: X (unknown)'']
   \<and> py_int (py_slice (get_text (album_marker ''album: X (unknown)''))
         (py_find (get_text (album_marker ''album: X (unknown)'')) (CHR ''('') + 1)
         (py_find (get_text (album_marker ''album: X (unknown)'')) (CHR '')''))) = Inl ValueError
   \<and> song_fields page_bad_album = Inl ValueError"
proof -
  let ?s = "\<lparr>song_title = ''Song Title'', song_lyrics = ''la lala'',
        song_file_title = ''Song_Title'', song_year = Some (1987::int),
        song_decade = ''1980s''\<rparr>"
  let ?n = "\<lparr>song_title = ''Song Title'', song_lyrics = ''la lala'',
        song_file_title = ''Song_Title'', song_year = (None::int option),
        song_decade = ''others''\<rparr>"
  let ?a = "album_marker ''album: X (1987)''"
  let ?b = "album_marker ''album: X (unknown)''"
  have a: "song_fields page_song = Inr ?s" by code_simp
  have b: "find_all_class ''songinalbum_title'' page_song = [?a]" by code_simp
  have c: "get_text ?a = ''album: X '' @ CHR ''('' # ''1987'' @ CHR '')'' # []" by code_simp
  have c': "CHR ''('' \<notin> set ''album: X '' \<and> CHR '')'' \<notin> set ''album: X ''
            \<and> CHR '')'' \<notin> set ''1987''" by code_simp
  have d: "song_fields page_no_album = Inr ?n" by code_simp
  have e: "length (find_all_class ''songinalbum_title'' page_no_album) = 0" by code_simp
  have f: "find_all_class ''songinalbum_title'' page_bad_album = [?b]" by code_simp
  have g: "py_int (py_slice (get_text ?b) (py_find (get_text ?b) (CHR ''('') + 1)
                     (py_find (get_text ?b) (CHR '')''))) = Inl ValueError" by code_simp
  have h: "song_fields page_bad_album = Inl ValueError" by code_simp
  have i: "py_int ''1987'' = Inr 1987" by code_simp
  have j: "take 3 (py_str 1987) @ ''0s'' = ''1980s''" by code_simp
  note t = song_year_decade [where soup = page_song and s = ?s and a = ?a
             and pre = "''album: X ''" and mid = "''1987''" and post = "[]"]
  have k: "py_slice (get_text ?a) (py_find (get_text ?a) (CHR ''('') + 1)
             (py_find (get_text ?a) (CHR '')'')) = ''1987''"
    using t c c' by blast
  from a b c d e f g h i j k show ?thesis by blast
qed

subsection \<open>\<^verbatim>\<open>get_lyrics\<close> as a whole\<close>


lemma get_lyrics_unfold:
  assumes "net url = Some soup"
  shows "get_lyrics net url save by_decade replace folder w =
     (case song_fields soup of
        Inl e \<Rightarrow> (Inl e, w\<lparr>trace := trace w @ [Fetch url]\<rparr>)
      | Inr s \<Rightarrow>
     (if \<not> save then (Inr (Some (song_title s, song_lyrics s, song_year s)),
                        w\<lparr>trace := trace w @ [Fetch url]\<rparr>)
      else
        (case save_in (folder @ ''/all/'') (folder @ ''/all/'' @ song_file_title s)
                      (song_lyrics s) replace (w\<lparr>trace := trace w @ [Fetch url]\<rparr>) of
           (Inl e, w2) \<Rightarrow> (Inl e, w2)
         | (Inr u, w2) \<Rightarrow>
        (if by_decade then
           (case save_in (folder @ ''/decades/'' @ song_decade s)
                         (folder @ ''/decades/'' @ song_decade s @ ''/'' @ song_file_title s)
                         (song_lyrics s) replace w2 of
              (Inl e, w3) \<Rightarrow> (Inl e, w3)
            | (Inr u, w3) \<Rightarrow> (Inr None, w3))
         else (Inr None, w2)))))"
  using assms by (simp add: get_lyrics_def urlopen_def Let_def)

lemma get_lyrics_fetch_error:
  assumes "net url = None"
  shows "get_lyrics net url save by_decade replace folder w
           = (Inl URLError, w\<lparr>trace := trace w @ [Fetch url]\<rparr>)"
  using assms by (simp add: get_lyrics_def urlopen_def Let_def)

lemma song_fields_short:
  assumes "length (find_all ''div'' soup) < 21"
  shows "song_fields soup = Inl IndexError"
  using assms by (simp add: song_fields_def py_index_def)

text \<open>
  C5. On a fetched song page with fewer than 21 \<^verbatim>\<open>div\<close> containers, \<open>get_lyrics\<close>
  raises \<open>IndexError\<close>, whatever its other arguments. The exception comes before any
  saving: the files and the directories are as they were, and the only thing recorded
  is the request of the page.
\<close>

theorem short_page_fails:
  assumes "net url = Some soup" and "length (find_all ''div'' soup) < 21"
  shows "fst (get_lyrics net url save by_decade replace folder w) = Inl IndexError
       \<and> files (snd (get_lyrics net url save by_decade replace folder w)) = files w
       \<and> dirs (snd (get_lyrics net url save by_decade replace folder w)) = dirs w
       \<and> trace (snd (get_lyrics net url save by_decade replace folder w))
           = trace w @ [Fetch url]"
  using assms(1) song_fields_short [OF assms(2)]
  by (simp add: get_lyrics_unfold [where net = net and url = url and soup = soup])

theorem short_page_fails_witness:
  "net_songs ''short'' = Some page_short \<and> length (find_all ''div'' page_short) < 21
   \<and> fst (get_lyrics net_songs ''short'' True True False ''songs'' w_empty) = Inl IndexError
   \<and> files (snd (get_lyrics net_songs ''short'' True True False ''songs'' w_empty)) = Map.empty
   \<and> dirs (snd (get_lyrics net_songs ''short'' True True False ''songs'' w_empty)) = {}"
proof -
  have a: "net_songs ''short'' = Some page_short" by (simp add: net_songs_def)
  have b: "length (find_all ''div'' page_short) < 21" by code_simp
  show ?thesis
    using a b short_page_fails [where net = net_songs and url = "''short''"
        and soup = page_short and save = True and by_decade = True and replace = False
        and folder = "''songs''" and w = w_empty]
    by (simp add: w_empty_def)
qed


text \<open>
  C3, as stated, fails: called to save, \<open>get_lyrics\<close> returns \<open>None\<close>, and called
  without saving it returns three things, not four; the decade it computed is not among
  them.
\<close>

theorem get_lyrics_counter_record:
  "fst (get_lyrics net_songs ''song'' True True False ''songs'' w_empty) = Inr None
   \<and> fst (get_lyrics net_songs ''song'' False True False ''songs'' w_empty)
       = Inr (Some (''Song Title'', ''la lala'', Some 1987))
   \<and> song_fields page_song = Inr \<lparr>song_title = ''Song Title'', song_lyrics = ''la lala'',
        song_file_title = ''Song_Title'', song_year = Some 1987, song_decade = ''1980s''\<rparr>"
  by code_simp

text \<open>
  C3, amended. A call of \<open>get_lyrics\<close> that raises nothing returns the triple of title,
  lyrics and year when it is told not to save (the decade is computed and not returned),
  and returns \<open>None\<close> when it saves.
\<close>

theorem get_lyrics_value:
  assumes "fst (get_lyrics net url save by_decade replace folder w) = Inr v"
  shows "\<exists>soup s. net url = Some soup \<and> song_fields soup = Inr s
           \<and> v = (if save then None
                   else Some (song_title s, song_lyrics s, song_year s))"
proof (cases "net url")
  case None
  with assms show ?thesis by (simp add: get_lyrics_fetch_error)
next
  case (Some soup)
  show ?thesis
  proof (cases "song_fields soup")
    case (Inl e)
    with assms Some show ?thesis
      by (simp add: get_lyrics_unfold [where net = net and url = url and soup = soup])
  next
    case (Inr s)
    with assms Some have "v = (if save then None
                   else Some (song_title s, song_lyrics s, song_year s))"
      by (auto simp: get_lyrics_unfold [where net = net and url = url and soup = soup]
               split: if_splits sum.splits prod.splits)
    with Some Inr show ?thesis by blast
  qed
qed

theorem get_lyrics_value_witness:
  "fst (get_lyrics net_songs ''song'' False True False ''songs'' w_empty)
     = Inr (Some (''Song Title'', ''la lala'', Some 1987))
   \<and> (\<exists>soup s. net_songs ''song'' = Some soup \<and> song_fields soup = Inr s
           \<and> Some (''Song Title'', ''la lala'', Some 1987)
               = (if False then None else Some (song_title s, song_lyrics s, song_year s)))
   \<and> fst (get_lyrics net_songs ''song'' True True False ''songs'' w_empty) = Inr None
   \<and> (\<exists>soup s. net_songs ''song'' = Some soup \<and> song_fields soup = Inr s
           \<and> None = (if True then None else Some (song_title s, song_lyrics s, song_year s)))"
proof -
  have a: "fst (get_lyrics net_songs ''song'' False True False ''songs'' w_empty)
     = Inr (Some (''Song Title'', ''la lala'', Some 1987))"
    by code_simp
  have b: "fst (get_lyrics net_songs ''song'' True True False ''songs'' w_empty) = Inr None"
    by code_simp
  from get_lyrics_value [OF a] get_lyrics_value [OF b] a b show ?thesis by blast
qed



lemma filter_strip_ends:
  assumes "q \<notin> set (rev (dropWhile (\<lambda>c. c = q) (rev (dropWhile (\<lambda>c. c = q) s))))"
  shows "filter (\<lambda>x. x \<noteq> q) s = rev (dropWhile (\<lambda>c. c = q) (rev (dropWhile (\<lambda>c. c = q) s)))"
proof -
  let ?P = "\<lambda>c. c = q"
  let ?u = "dropWhile ?P s"
  let ?m = "rev (dropWhile ?P (rev ?u))"
  have s: "s = takeWhile ?P s @ ?u" by simp
  have u: "?u = ?m @ rev (takeWhile ?P (rev ?u))"
    by (metis rev_append rev_rev_ident takeWhile_dropWhile_id)
  have f1: "filter (\<lambda>x. x \<noteq> q) (takeWhile ?P s) = []"
    by (simp add: filter_empty_conv) (meson set_takeWhileD)
  have f2: "filter (\<lambda>x. x \<noteq> q) (rev (takeWhile ?P (rev ?u))) = []"
    by (simp add: filter_empty_conv) (meson set_takeWhileD)
  have f3: "filter (\<lambda>x. x \<noteq> q) ?m = ?m"
    using assms by (auto simp: filter_id_conv)
  have "filter (\<lambda>x. x \<noteq> q) s = filter (\<lambda>x. x \<noteq> q) (takeWhile ?P s) @ filter (\<lambda>x. x \<noteq> q) ?u"
    by (metis s filter_append)
  also have "\<dots> = filter (\<lambda>x. x \<noteq> q) ?u" using f1 by simp
  also have "\<dots> = filter (\<lambda>x. x \<noteq> q) (?m @ rev (takeWhile ?P (rev ?u)))"
    using u by simp
  also have "\<dots> = ?m" using f2 f3 by simp
  finally show ?thesis .
qed

text \<open>
  C4, as stated, fails twice. A title with quote characters inside loses them too, not
  only the surrounding ones; and a page with 21 containers and two bold elements whose
  one album marker holds no number raises \<open>ValueError\<close> instead of returning.
\<close>

theorem get_lyrics_counter_title:
  "20 < length (find_all ''div'' page_inner_quotes)
   \<and> 1 < length (find_all ''b'' page_inner_quotes)
   \<and> net_songs ''inner_quotes'' = Some page_inner_quotes
   \<and> fst (get_lyrics net_songs ''inner_quotes'' False False False ''songs'' w_empty)
       = Inr (Some (''Say Hi now'', ''la lala'', None))
   \<and> spec_strip_quotes (get_text (find_all ''b'' page_inner_quotes ! 1))
       = ''Say '' @ [CHR 0x22] @ ''Hi'' @ [CHR 0x22] @ '' now''
   \<and> ''Say Hi now'' \<noteq> ''Say '' @ [CHR 0x22] @ ''Hi'' @ [CHR 0x22] @ '' now''
   \<and> 20 < length (find_all ''div'' page_bad_album)
   \<and> 1 < length (find_all ''b'' page_bad_album)
   \<and> net_songs ''bad_album'' = Some page_bad_album
   \<and> fst (get_lyrics net_songs ''bad_album'' False False False ''songs'' w_empty)
       = Inl ValueError"
  by code_simp

text \<open>
  C4, amended. On a fetched song page with at least 21 containers and at least 2 bold
  elements, whose album marker (if there is exactly one) parses: \<open>get_lyrics\<close> without
  saving returns as lyrics the text of the 21st container as it is, and as title the
  text of the 2nd bold element with every double-quote character removed and all else,
  spaces included, kept. That is the text with its surrounding quotes stripped whenever
  no quote is left inside. Files and directories are untouched; only the request of the
  page is recorded.
\<close>

theorem get_lyrics_no_save:
  assumes "net url = Some soup"
    and "20 < length (find_all ''div'' soup)"
    and "1 < length (find_all ''b'' soup)"
    and "album_info soup = Inr (yr, dec)"
  shows "fst (get_lyrics net url False by_decade replace folder w)
           = Inr (Some (filter (\<lambda>c. c \<noteq> CHR 0x22) (get_text (find_all ''b'' soup ! 1)),
                        get_text (find_all ''div'' soup ! 20), yr))
       \<and> files (snd (get_lyrics net url False by_decade replace folder w)) = files w
       \<and> dirs (snd (get_lyrics net url False by_decade replace folder w)) = dirs w
       \<and> trace (snd (get_lyrics net url False by_decade replace folder w))
           = trace w @ [Fetch url]
       \<and> (CHR 0x22 \<notin> set (spec_strip_quotes (get_text (find_all ''b'' soup ! 1)))
          \<longrightarrow> filter (\<lambda>c. c \<noteq> CHR 0x22) (get_text (find_all ''b'' soup ! 1))
                = spec_strip_quotes (get_text (find_all ''b'' soup ! 1)))"
proof -
  have sf: "song_fields soup =
      Inr \<lparr>song_title = filter (\<lambda>c. c \<noteq> CHR 0x22) (get_text (find_all ''b'' soup ! 1)),
           song_lyrics = get_text (find_all ''div'' soup ! 20),
           song_file_title = py_replace (filter (\<lambda>c. c \<noteq> CHR 0x22)
                                (get_text (find_all ''b'' soup ! 1))) (CHR '' '') ''_'',
           song_year = yr, song_decade = dec\<rparr>"
    using assms(2,3,4) by (simp add: song_fields_def py_index_def Let_def py_replace_del)
  have "CHR 0x22 \<notin> set (spec_strip_quotes (get_text (find_all ''b'' soup ! 1)))
          \<longrightarrow> filter (\<lambda>c. c \<noteq> CHR 0x22) (get_text (find_all ''b'' soup ! 1))
                = spec_strip_quotes (get_text (find_all ''b'' soup ! 1))"
    unfolding spec_strip_quotes_def by (intro impI filter_strip_ends)
  with assms(1) sf show ?thesis
    by (simp add: get_lyrics_unfold [where net = net and url = url and soup = soup])
qed

theorem get_lyrics_no_save_witness:
  "net_songs ''song'' = Some page_song
   \<and> 20 < length (find_all ''div'' page_song) \<and> 1 < length (find_all ''b'' page_song)
   \<and> album_info page_song = Inr (Some 1987, ''1980s'')
   \<and> get_text (find_all ''b'' page_song ! 1) = [CHR 0x22] @ ''Song Title'' @ [CHR 0x22]
   \<and> get_text (find_all ''div'' page_song ! 20) = ''la lala''
   \<and> fst (get_lyrics net_songs ''song'' False False False ''songs'' w_empty)
       = Inr (Some (''Song Title'', ''la lala'', Some 1987))
   \<and> files (snd (get_lyrics net_songs ''song'' False False False ''songs'' w_empty)) = Map.empty
   \<and> dirs (snd (get_lyrics net_songs ''song'' False False False ''songs'' w_empty)) = {}"
proof -
  have a: "net_songs ''song'' = Some page_song" by (simp add: net_songs_def)
  have b: "20 < length (find_all ''div'' page_song)" by code_simp
  have c: "1 < length (find_all ''b'' page_song)" by code_simp
  have d: "album_info page_song = Inr (Some 1987, ''1980s'')" by code_simp
  have e: "get_text (find_all ''b'' page_song ! 1) = [CHR 0x22] @ ''Song Title'' @ [CHR 0x22]"
    by code_simp
  have f: "get_text (find_all ''div'' page_song ! 20) = ''la lala''" by code_simp
  show ?thesis
    using a b c d e f
      get_lyrics_no_save [where net = net_songs and url = "''song''" and soup = page_song
        and yr = "Some 1987" and dec = "''1980s''" and by_decade = False and replace = False
        and folder = "''songs''" and w = w_empty]
    by (simp add: w_empty_def)
qed

subsection \<open>What saving does to the world\<close>


lemma open_write_cases:
  obtains (ok) "fst (open_write p t w) = Inr ()"
      "files (snd (open_write p t w)) = (files w)(relpath p \<mapsto> t)"
      "dirs (snd (open_write p t w)) = dirs w"
      "trace (snd (open_write p t w)) = trace w @ [Write (relpath p) t]"
  | (err) "fst (open_write p t w) = Inl OSError" "snd (open_write p t w) = w"
  by (cases "writable (dirs w) p") (simp_all add: open_write_def)

lemma save_file_cases:
  obtains (ok) k where "k = path @ ''.txt'' \<or> k = path @ ''_2.txt''"
      "fst (save_file path t rep w) = Inr ()"
      "files (snd (save_file path t rep w)) = (files w)(k \<mapsto> t)"
      "dirs (snd (save_file path t rep w)) = dirs w"
      "trace (snd (save_file path t rep w)) = trace w @ [Write k t]"
  | (err) "fst (save_file path t rep w) = Inl OSError" "snd (save_file path t rep w) = w"
proof (cases "\<not> rep \<and> path_exists w (relpath (path @ ''.txt''))")
  case True
  then have eq: "save_file path t rep w = open_write (path @ ''_2.txt'') t w"
    by (simp add: save_file_def)
  show ?thesis
    using open_write_cases [of "path @ ''_2.txt''" t w] ok [of "path @ ''_2.txt''"] err
    unfolding eq by (cases rule: open_write_cases [of "path @ ''_2.txt''" t w]) simp_all
next
  case False
  then have eq: "save_file path t rep w = open_write (path @ ''.txt'') t w"
    by (auto simp: save_file_def)
  show ?thesis
    using ok [of "path @ ''.txt''"] err
    unfolding eq by (cases rule: open_write_cases [of "path @ ''.txt''" t w]) simp_all
qed


lemma makedirs_cases:
  obtains (ok) "fst (makedirs p w) = Inr ()"
      "files (snd (makedirs p w)) = files w"
      "trace (snd (makedirs p w)) = trace w"
      "dirs w \<subseteq> dirs (snd (makedirs p w))"
  | (err) "fst (makedirs p w) = Inl OSError" "snd (makedirs p w) = w"
  by (cases "path_exists w p \<or> (\<exists>d \<in> set (parents (relpath p)). d \<in> dom (files w))")
     (auto simp: makedirs_def)

lemma save_in_cases:
  obtains (ok) k where "k = path @ ''.txt'' \<or> k = path @ ''_2.txt''"
      "fst (save_in dir path t rep w) = Inr ()"
      "files (snd (save_in dir path t rep w)) = (files w)(k \<mapsto> t)"
      "trace (snd (save_in dir path t rep w)) = trace w @ [Write k t]"
      "dirs w \<subseteq> dirs (snd (save_in dir path t rep w))"
  | (err) "fst (save_in dir path t rep w) = Inl OSError"
      "files (snd (save_in dir path t rep w)) = files w"
      "trace (snd (save_in dir path t rep w)) = trace w"
proof (cases "path_exists w (relpath dir)")
  case True
  then have eq: "save_in dir path t rep w = save_file path t rep w"
    by (simp add: save_in_def)
  show ?thesis
    using ok err unfolding eq
    by (cases rule: save_file_cases [of path t rep w]) simp_all
next
  case False
  show ?thesis
  proof (cases rule: makedirs_cases [of "relpath dir" w])
    case ok': ok
    let ?w1 = "snd (makedirs (relpath dir) w)"
    have eq: "save_in dir path t rep w = save_file path t rep ?w1"
      using False ok'(1) by (cases "makedirs (relpath dir) w") (simp add: save_in_def)
    show ?thesis
      using ok err ok'(2,3,4) unfolding eq
      by (cases rule: save_file_cases [of path t rep ?w1]) simp_all
  next
    case err': err
    have eq: "save_in dir path t rep w = (Inl OSError, w)"
      using False err' by (cases "makedirs (relpath dir) w") (simp add: save_in_def)
    show ?thesis using err unfolding eq by simp
  qed
qed


lemma get_lyrics_save_cases:
  assumes "net url = Some soup" and "song_fields soup = Inr s"
  obtains
    (ok1) k1 where "\<not> by_decade"
      "k1 = folder @ ''/all/'' @ song_file_title s @ ''.txt''
         \<or> k1 = folder @ ''/all/'' @ song_file_title s @ ''_2.txt''"
      "fst (get_lyrics net url True by_decade replace folder w) = Inr None"
      "files (snd (get_lyrics net url True by_decade replace folder w))
         = (files w)(k1 \<mapsto> song_lyrics s)"
      "trace (snd (get_lyrics net url True by_decade replace folder w))
         = trace w @ [Fetch url, Write k1 (song_lyrics s)]"
  | (ok2) k1 k2 where "by_decade"
      "k1 = folder @ ''/all/'' @ song_file_title s @ ''.txt''
         \<or> k1 = folder @ ''/all/'' @ song_file_title s @ ''_2.txt''"
      "k2 = folder @ ''/decades/'' @ song_decade s @ ''/'' @ song_file_title s @ ''.txt''
         \<or> k2 = folder @ ''/decades/'' @ song_decade s @ ''/'' @ song_file_title s @ ''_2.txt''"
      "fst (get_lyrics net url True by_decade replace folder w) = Inr None"
      "files (snd (get_lyrics net url True by_decade replace folder w))
         = (files w)(k1 \<mapsto> song_lyrics s, k2 \<mapsto> song_lyrics s)"
      "trace (snd (get_lyrics net url True by_decade replace folder w))
         = trace w @ [Fetch url, Write k1 (song_lyrics s), Write k2 (song_lyrics s)]"
  | (err1) "fst (get_lyrics net url True by_decade replace folder w) = Inl OSError"
      "files (snd (get_lyrics net url True by_decade replace folder w)) = files w"
      "trace (snd (get_lyrics net url True by_decade replace folder w))
         = trace w @ [Fetch url]"
  | (err2) k1 where "by_decade"
      "k1 = folder @ ''/all/'' @ song_file_title s @ ''.txt''
         \<or> k1 = folder @ ''/all/'' @ song_file_title s @ ''_2.txt''"
      "fst (get_lyrics net url True by_decade replace folder w) = Inl OSError"
      "files (snd (get_lyrics net url True by_decade replace folder w))
         = (files w)(k1 \<mapsto> song_lyrics s)"
      "trace (snd (get_lyrics net url True by_decade replace folder w))
         = trace w @ [Fetch url, Write k1 (song_lyrics s)]"
proof -
  let ?w1 = "w\<lparr>trace := trace w @ [Fetch url]\<rparr>"
  let ?S1 = "save_in (folder @ ''/all/'') (folder @ ''/all/'' @ song_file_title s)
               (song_lyrics s) replace ?w1"
  let ?S2 = "save_in (folder @ ''/decades/'' @ song_decade s)
               (folder @ ''/decades/'' @ song_decade s @ ''/'' @ song_file_title s)
               (song_lyrics s) replace (snd ?S1)"
  have G: "get_lyrics net url True by_decade replace folder w =
     (case ?S1 of
        (Inl e, w2) \<Rightarrow> (Inl e, w2)
      | (Inr u, w2) \<Rightarrow>
          (if by_decade then
             (case save_in (folder @ ''/decades/'' @ song_decade s)
               (folder @ ''/decades/'' @ song_decade s @ ''/'' @ song_file_title s)
               (song_lyrics s) replace w2 of
                (Inl e, w3) \<Rightarrow> (Inl e, w3)
              | (Inr u, w3) \<Rightarrow> (Inr None, w3))
           else (Inr None, w2)))"
    using assms by (simp add: get_lyrics_def urlopen_def Let_def)
  show ?thesis
  proof (cases rule: save_in_cases [of "folder @ ''/all/'' @ song_file_title s"
           "folder @ ''/all/''" "song_lyrics s" replace ?w1])
    case (ok k1)
    have G1: "get_lyrics net url True by_decade replace folder w =
          (if by_decade then (case ?S2 of (Inl e, w3) \<Rightarrow> (Inl e, w3)
                                         | (Inr u, w3) \<Rightarrow> (Inr None, w3))
           else (Inr None, snd ?S1))"
      unfolding G using ok(2) by (cases ?S1) simp
    show ?thesis
    proof (cases by_decade)
      case False
      with G1 have "get_lyrics net url True by_decade replace folder w = (Inr None, snd ?S1)"
        by simp
      with ok False show ?thesis by (intro ok1 [of k1]) simp_all
    next
      case True
      with G1 have G2: "get_lyrics net url True by_decade replace folder w =
          (case ?S2 of (Inl e, w3) \<Rightarrow> (Inl e, w3) | (Inr u, w3) \<Rightarrow> (Inr None, w3))"
        by simp
      show ?thesis
      proof (cases rule: save_in_cases [of
           "folder @ ''/decades/'' @ song_decade s @ ''/'' @ song_file_title s"
           "folder @ ''/decades/'' @ song_decade s" "song_lyrics s" replace "snd ?S1"])
        case ok': (ok k2)
        have "get_lyrics net url True by_decade replace folder w = (Inr None, snd ?S2)"
          unfolding G2 using ok'(2) by (cases ?S2) simp
        with ok ok' True show ?thesis by (intro ok2 [of k1 k2]) simp_all
      next
        case err
        have "get_lyrics net url True by_decade replace folder w = (Inl OSError, snd ?S2)"
          unfolding G2 using err(1) by (cases ?S2) simp
        with ok err True show ?thesis by (intro err2 [of k1]) simp_all
      qed
    qed
  next
    case err
    have "get_lyrics net url True by_decade replace folder w = (Inl OSError, snd ?S1)"
      unfolding G using err(1) by (cases ?S1) simp
    with err show ?thesis by (intro err1) simp_all
  qed
qed

subsection \<open>The album marker\<close>








subsection \<open>\<^verbatim>\<open>get_artists\<close>\<close>


lemma collect_artists_ok:
  assumes "\<forall>l \<in> set links. get_attr l ''href'' \<noteq> None"
  shows "collect_artists home links us ns
           = Inr (us @ map (\<lambda>l. fst (spec_artist_ref home l)) links,
                  ns @ map (\<lambda>l. snd (spec_artist_ref home l)) links)"
  using assms
proof (induction links arbitrary: us ns)
  case Nil
  then show ?case by simp
next
  case (Cons l links)
  then obtain h where h: "get_attr l ''href'' = Some h" by auto
  with Cons show ?case by (simp add: spec_artist_ref_def)
qed

lemma collect_artists_err:
  assumes "\<exists>l \<in> set links. get_attr l ''href'' = None"
  shows "collect_artists home links us ns = Inl KeyError"
  using assms
proof (induction links arbitrary: us ns)
  case Nil
  then show ?case by simp
next
  case (Cons l links)
  then show ?case by (cases "get_attr l ''href''") auto
qed

lemma get_artists_unfold:
  assumes "net (home @ letter @ ''.html'') = Some soup"
  shows "get_artists net letter home w =
     (case py_index (find_all_tag_class ''div'' ''row'' soup) 1 of
        Inl e \<Rightarrow> (Inl e, w\<lparr>trace := trace w @ [Fetch (home @ letter @ ''.html'')]\<rparr>)
      | Inr row \<Rightarrow>
     (case collect_artists home (find_all ''a'' row) [] [] of
        Inl e \<Rightarrow> (Inl e, w\<lparr>trace := trace w @ [Fetch (home @ letter @ ''.html'')]\<rparr>)
      | Inr r \<Rightarrow> (Inr r, w\<lparr>trace := trace w @ [Fetch (home @ letter @ ''.html'')]\<rparr>)))"
  using assms by (simp add: get_artists_def urlopen_def Let_def)

text \<open>
  C6, as stated, fails: with two rows on the page, a link in the second row that has
  no \<^verbatim>\<open>href\<close> (a named anchor) makes \<open>get_artists\<close> raise \<open>KeyError\<close> instead of
  returning an ArtistRef for each link.
\<close>

theorem get_artists_counter_href:
  "net_index (home_url @ ''b'' @ ''.html'') = Some page_index_anchor
   \<and> length (find_all_tag_class ''div'' ''row'' page_index_anchor) = 2
   \<and> length (find_all ''a'' (find_all_tag_class ''div'' ''row'' page_index_anchor ! 1)) = 2
   \<and> fst (get_artists net_index ''b'' home_url w_empty) = Inl KeyError"
  by code_simp

text \<open>
  C6, amended. On a fetched index page, count the \<^verbatim>\<open>div\<close> elements that carry the
  class \<open>row\<close>. With fewer than two, \<open>get_artists\<close> raises \<open>IndexError\<close> and returns
  nothing. With two or more, and an \<^verbatim>\<open>href\<close> on every link inside the second, it
  returns one ArtistRef per link, in document order: the list of URLs (base and target)
  and the list of visible texts, side by side. With two or more and a link without
  \<^verbatim>\<open>href\<close> inside the second, it raises \<open>KeyError\<close>. No file or directory is touched.
\<close>

theorem get_artists_result:
  assumes "net (home @ letter @ ''.html'') = Some soup"
  shows "(length (find_all_tag_class ''div'' ''row'' soup) < 2
            \<longrightarrow> fst (get_artists net letter home w) = Inl IndexError)
       \<and> (2 \<le> length (find_all_tag_class ''div'' ''row'' soup)
            \<and> (\<forall>l \<in> set (find_all ''a'' (find_all_tag_class ''div'' ''row'' soup ! 1)).
                   get_attr l ''href'' \<noteq> None)
          \<longrightarrow> fst (get_artists net letter home w)
                = Inr (map (\<lambda>l. fst (spec_artist_ref home l))
                           (find_all ''a'' (find_all_tag_class ''div'' ''row'' soup ! 1)),
                       map (\<lambda>l. snd (spec_artist_ref home l))
                           (find_all ''a'' (find_all_tag_class ''div'' ''row'' soup ! 1))))
       \<and> (2 \<le> length (find_all_tag_class ''div'' ''row'' soup)
            \<and> (\<exists>l \<in> set (find_all ''a'' (find_all_tag_class ''div'' ''row'' soup ! 1)).
                   get_attr l ''href'' = None)
          \<longrightarrow> fst (get_artists net letter home w) = Inl KeyError)
       \<and> files (snd (get_artists net letter home w)) = files w
       \<and> dirs (snd (get_artists net letter home w)) = dirs w"
proof -
  note u = get_artists_unfold [where net = net and home = home and letter = letter
             and soup = soup and w = w, OF assms]
  let ?rows = "find_all_tag_class ''div'' ''row'' soup"
  have a: "length ?rows < 2 \<longrightarrow> fst (get_artists net letter home w) = Inl IndexError"
    unfolding u by (simp add: py_index_def)
  have b: "2 \<le> length ?rows \<and> (\<forall>l \<in> set (find_all ''a'' (?rows ! 1)). get_attr l ''href'' \<noteq> None)
          \<longrightarrow> fst (get_artists net letter home w)
                = Inr (map (\<lambda>l. fst (spec_artist_ref home l)) (find_all ''a'' (?rows ! 1)),
                       map (\<lambda>l. snd (spec_artist_ref home l)) (find_all ''a'' (?rows ! 1)))"
    unfolding u by (simp add: py_index_def collect_artists_ok)
  have c: "2 \<le> length ?rows \<and> (\<exists>l \<in> set (find_all ''a'' (?rows ! 1)). get_attr l ''href'' = None)
          \<longrightarrow> fst (get_artists net letter home w) = Inl KeyError"
    unfolding u by (simp add: py_index_def collect_artists_err)
  have d: "files (snd (get_artists net letter home w)) = files w
         \<and> dirs (snd (get_artists net letter home w)) = dirs w"
    unfolding u by (simp split: sum.splits)
  from a b c d show ?thesis by blast
qed

theorem get_artists_result_witness:
  "net_index (home_url @ ''a'' @ ''.html'') = Some page_index_a
   \<and> fst (get_artists net_index ''a'' home_url w_empty)
       = Inr ([''https://www.azlyrics.com/a/one.html'', ''https://www.azlyrics.com/a/two.html''],
              [''Artist One'', ''Artist Two''])
   \<and> map (\<lambda>l. fst (spec_artist_ref home_url l))
          (find_all ''a'' (find_all_tag_class ''div'' ''row'' page_index_a ! 1))
       = [''https://www.azlyrics.com/a/one.html'', ''https://www.azlyrics.com/a/two.html'']
   \<and> net_index (home_url @ ''c'' @ ''.html'') = Some page_index_one_row
   \<and> length (find_all_tag_class ''div'' ''row'' page_index_one_row) < 2
   \<and> fst (get_artists net_index ''c'' home_url w_empty) = Inl IndexError"
proof -
  have a: "net_index (home_url @ ''a'' @ ''.html'') = Some page_index_a" by code_simp
  have b: "2 \<le> length (find_all_tag_class ''div'' ''row'' page_index_a)" by code_simp
  have c: "\<forall>l \<in> set (find_all ''a'' (find_all_tag_class ''div'' ''row'' page_index_a ! 1)).
            get_attr l ''href'' \<noteq> None" by code_simp
  have d: "map (\<lambda>l. fst (spec_artist_ref home_url l))
          (find_all ''a'' (find_all_tag_class ''div'' ''row'' page_index_a ! 1))
       = [''https://www.azlyrics.com/a/one.html'', ''https://www.azlyrics.com/a/two.html'']"
    by code_simp
  have e: "map (\<lambda>l. snd (spec_artist_ref home_url l))
          (find_all ''a'' (find_all_tag_class ''div'' ''row'' page_index_a ! 1))
       = [''Artist One'', ''Artist Two'']"
    by code_simp
  have f: "net_index (home_url @ ''c'' @ ''.html'') = Some page_index_one_row" by code_simp
  have g: "length (find_all_tag_class ''div'' ''row'' page_index_one_row) < 2" by code_simp
  note t1 = get_artists_result [where net = net_index and home = home_url and letter = "''a''"
             and soup = page_index_a and w = w_empty, OF a]
  note t2 = get_artists_result [where net = net_index and home = home_url and letter = "''c''"
             and soup = page_index_one_row and w = w_empty, OF f]
  have h: "fst (get_artists net_index ''a'' home_url w_empty)
       = Inr ([''https://www.azlyrics.com/a/one.html'', ''https://www.azlyrics.com/a/two.html''],
              [''Artist One'', ''Artist Two''])"
    using t1 b c d e by simp
  have i: "fst (get_artists net_index ''c'' home_url w_empty) = Inl IndexError"
    using t2 g by blast
  from a d f g h i show ?thesis by blast
qed

subsection \<open>\<^verbatim>\<open>scrape_artist\<close>: the song URLs\<close>



lemma song_url_of_ok:
  assumes "has_song_link d"
  shows "song_url_of home d = Inr (spec_song_url home d)"
  using assms
  by (auto simp: has_song_link_def song_url_of_def spec_song_url_def py_split1_def
        py_index_def split: option.splits)

lemma song_url_of_err:
  assumes "\<not> has_song_link d"
  shows "song_url_of home d \<in> {Inl TypeError, Inl KeyError, Inl IndexError}"
  using assms
  by (auto simp: has_song_link_def song_url_of_def py_split1_def
        py_index_def split: option.splits)

lemma collect_urls_ok:
  assumes "\<forall>d \<in> set ds. has_song_link d"
  shows "collect_urls home ds urls = Inr (urls @ map (spec_song_url home) ds)"
  using assms
  by (induction ds arbitrary: urls) (simp_all add: song_url_of_ok)

lemma collect_urls_err:
  assumes "\<exists>d \<in> set ds. \<not> has_song_link d"
  shows "collect_urls home ds urls \<in> {Inl TypeError, Inl KeyError, Inl IndexError}"
  using assms
proof (induction ds arbitrary: urls)
  case Nil
  then show ?case by simp
next
  case (Cons d ds)
  show ?case
  proof (cases "has_song_link d")
    case True
    with Cons show ?thesis by (simp add: song_url_of_ok)
  next
    case False
    from song_url_of_err [OF this, of home] show ?thesis by auto
  qed
qed


lemma scrape_artist_unfold:
  assumes "net az_url = Some bs"
  shows "scrape_artist net az_url sleep by_decade replace folder w =
     (case collect_urls home_url (find_all_tag_class ''div'' ''listalbum-item'' bs) [] of
        Inl e \<Rightarrow> (Inl e, w\<lparr>trace := trace w @ [Fetch az_url]\<rparr>)
      | Inr urls \<Rightarrow> songs_loop net urls sleep by_decade replace folder
                      (w\<lparr>trace := trace w @ [Fetch az_url]\<rparr>))"
  using assms by (simp add: scrape_artist_def urlopen_def Let_def)

text \<open>
  C7, as stated, fails: an artist page that lists a song without a link (a container
  with text only) makes \<open>scrape_artist\<close> raise \<open>TypeError\<close> at \<^verbatim>\<open>d.a['href']\<close>;
  no URL is produced for any container.
\<close>

theorem scrape_artist_counter_unlinked:
  "net_site ''unlinked'' = Some page_artist_unlinked
   \<and> length (find_all_tag_class ''div'' ''listalbum-item'' page_artist_unlinked) = 2
   \<and> collect_urls home_url (find_all_tag_class ''div'' ''listalbum-item'' page_artist_unlinked) []
       = Inl TypeError
   \<and> fst (scrape_artist net_site ''unlinked'' Random True False ''songs'' w_empty)
       = Inl TypeError"
  by code_simp

text \<open>
  C7, amended. On a fetched artist page, take the \<^verbatim>\<open>div\<close> elements of class
  \<open>listalbum-item\<close>, in document order. When each holds a link whose target contains a
  separator, the list \<open>urls\<close> built by lines 60 to 62 has one URL per container, in that
  order: the base followed by what comes after the first separator of the target; and
  \<open>scrape_artist\<close> goes on to fetch exactly these. When there is no container, the list
  is empty and \<open>scrape_artist\<close> returns without error, having fetched the artist page
  only. When some container has no such link, \<open>scrape_artist\<close> raises \<open>TypeError\<close>,
  \<open>KeyError\<close> or \<open>IndexError\<close> before it fetches any song.
\<close>

theorem scrape_artist_urls:
  assumes "net az_url = Some bs"
  shows "((\<forall>d \<in> set (find_all_tag_class ''div'' ''listalbum-item'' bs). has_song_link d)
          \<longrightarrow> collect_urls home_url (find_all_tag_class ''div'' ''listalbum-item'' bs) []
                = Inr (map (spec_song_url home_url)
                           (find_all_tag_class ''div'' ''listalbum-item'' bs))
              \<and> scrape_artist net az_url sleep by_decade replace folder w
                = songs_loop net (map (spec_song_url home_url)
                                      (find_all_tag_class ''div'' ''listalbum-item'' bs))
                    sleep by_decade replace folder (w\<lparr>trace := trace w @ [Fetch az_url]\<rparr>))
       \<and> (find_all_tag_class ''div'' ''listalbum-item'' bs = []
          \<longrightarrow> collect_urls home_url (find_all_tag_class ''div'' ''listalbum-item'' bs) [] = Inr []
              \<and> scrape_artist net az_url sleep by_decade replace folder w
                = (Inr (), w\<lparr>trace := trace w @ [Fetch az_url]\<rparr>))
       \<and> ((\<exists>d \<in> set (find_all_tag_class ''div'' ''listalbum-item'' bs). \<not> has_song_link d)
          \<longrightarrow> fst (scrape_artist net az_url sleep by_decade replace folder w)
                \<in> {Inl TypeError, Inl KeyError, Inl IndexError}
              \<and> snd (scrape_artist net az_url sleep by_decade replace folder w)
                = w\<lparr>trace := trace w @ [Fetch az_url]\<rparr>)"
proof -
  note u = scrape_artist_unfold [where net = net and az_url = az_url and bs = bs
             and sleep = sleep and by_decade = by_decade and replace = replace
             and folder = folder and w = w, OF assms]
  let ?C = "find_all_tag_class ''div'' ''listalbum-item'' bs"
  have a: "(\<forall>d \<in> set ?C. has_song_link d)
          \<longrightarrow> collect_urls home_url ?C [] = Inr (map (spec_song_url home_url) ?C)
              \<and> scrape_artist net az_url sleep by_decade replace folder w
                = songs_loop net (map (spec_song_url home_url) ?C)
                    sleep by_decade replace folder (w\<lparr>trace := trace w @ [Fetch az_url]\<rparr>)"
    unfolding u by (simp add: collect_urls_ok)
  have b: "?C = [] \<longrightarrow> collect_urls home_url ?C [] = Inr []
              \<and> scrape_artist net az_url sleep by_decade replace folder w
                = (Inr (), w\<lparr>trace := trace w @ [Fetch az_url]\<rparr>)"
    unfolding u by simp
  have c: "(\<exists>d \<in> set ?C. \<not> has_song_link d)
          \<longrightarrow> fst (scrape_artist net az_url sleep by_decade replace folder w)
                \<in> {Inl TypeError, Inl KeyError, Inl IndexError}
              \<and> snd (scrape_artist net az_url sleep by_decade replace folder w)
                = w\<lparr>trace := trace w @ [Fetch az_url]\<rparr>"
  proof
    assume "\<exists>d \<in> set ?C. \<not> has_song_link d"
    from collect_urls_err [OF this, of home_url "[]"]
    show "fst (scrape_artist net az_url sleep by_decade replace folder w)
                \<in> {Inl TypeError, Inl KeyError, Inl IndexError}
              \<and> snd (scrape_artist net az_url sleep by_decade replace folder w)
                = w\<lparr>trace := trace w @ [Fetch az_url]\<rparr>"
      unfolding u by auto
  qed
  from a b c show ?thesis by blast
qed

theorem scrape_artist_urls_witness:
  "net_site ''https://www.azlyrics.com/a/one.html'' = Some page_artist_one
   \<and> list_all has_song_link (find_all_tag_class ''div'' ''listalbum-item'' page_artist_one)
   \<and> collect_urls home_url (find_all_tag_class ''div'' ''listalbum-item'' page_artist_one) []
       = Inr [''https://www.azlyrics.com/lyrics/one/song.html'']
   \<and> net_site ''https://www.azlyrics.com/a/two.html'' = Some page_artist_none
   \<and> find_all_tag_class ''div'' ''listalbum-item'' page_artist_none = []
   \<and> fst (scrape_artist net_site ''https://www.azlyrics.com/a/two.html'' Random True False
             ''songs'' w_empty) = Inr ()
   \<and> trace (snd (scrape_artist net_site ''https://www.azlyrics.com/a/two.html'' Random True False
             ''songs'' w_empty)) = [Fetch ''https://www.azlyrics.com/a/two.html'']"
proof -
  have a: "net_site ''https://www.azlyrics.com/a/one.html'' = Some page_artist_one"
    by code_simp
  have b: "list_all has_song_link (find_all_tag_class ''div'' ''listalbum-item'' page_artist_one)"
    by code_simp
  have c: "map (spec_song_url home_url)
             (find_all_tag_class ''div'' ''listalbum-item'' page_artist_one)
           = [''https://www.azlyrics.com/lyrics/one/song.html'']"
    by code_simp
  have d: "net_site ''https://www.azlyrics.com/a/two.html'' = Some page_artist_none"
    by code_simp
  have e: "find_all_tag_class ''div'' ''listalbum-item'' page_artist_none = []"
    by code_simp
  note t1 = scrape_artist_urls [where net = net_site
      and az_url = "''https://www.azlyrics.com/a/one.html''" and bs = page_artist_one
      and sleep = Random and by_decade = True and replace = False and folder = "''songs''"
      and w = w_empty, OF a]
  note t2 = scrape_artist_urls [where net = net_site
      and az_url = "''https://www.azlyrics.com/a/two.html''" and bs = page_artist_none
      and sleep = Random and by_decade = True and replace = False and folder = "''songs''"
      and w = w_empty, OF d]
  have f: "collect_urls home_url
             (find_all_tag_class ''div'' ''listalbum-item'' page_artist_one) []
           = Inr [''https://www.azlyrics.com/lyrics/one/song.html'']"
    using t1 b c by (simp add: list_all_iff)
  have g: "scrape_artist net_site ''https://www.azlyrics.com/a/two.html'' Random True False
             ''songs'' w_empty
           = (Inr (), w_empty\<lparr>trace := trace w_empty @ [Fetch ''https://www.azlyrics.com/a/two.html'']\<rparr>)"
    using t2 e by blast
  have h: "fst (scrape_artist net_site ''https://www.azlyrics.com/a/two.html'' Random True False
             ''songs'' w_empty) = Inr ()"
    "trace (snd (scrape_artist net_site ''https://www.azlyrics.com/a/two.html'' Random True False
             ''songs'' w_empty)) = [Fetch ''https://www.azlyrics.com/a/two.html'']"
    unfolding g by (simp_all add: w_empty_def)
  from a b d e f h show ?thesis by blast
qed

subsection \<open>The order of the crawl\<close>



lemma get_lyrics_ok_page:
  assumes "fst (get_lyrics net url save by_decade replace folder w) = Inr v"
  shows "\<exists>soup s. net url = Some soup \<and> song_fields soup = Inr s"
proof (cases "net url")
  case None
  with assms show ?thesis by (simp add: get_lyrics_fetch_error)
next
  case (Some soup)
  with assms show ?thesis
    by (cases "song_fields soup")
       (simp_all add: get_lyrics_unfold [where net = net and url = url and soup = soup])
qed

lemma get_lyrics_ok_steps:
  assumes "fst (get_lyrics net url True by_decade replace folder w) = Inr v"
  shows "\<exists>ev. trace (snd (get_lyrics net url True by_decade replace folder w)) = trace w @ ev
            \<and> map step_of ev = [Fetched url, Saved] @ (if by_decade then [Saved] else [])"
proof -
  from get_lyrics_ok_page [OF assms] obtain soup s
    where p: "net url = Some soup" "song_fields soup = Inr s" by blast
  show ?thesis
  proof (cases rule: get_lyrics_save_cases [where net = net and url = url and soup = soup
          and s = s and by_decade = by_decade and folder = folder and replace = replace
          and w = w, OF p])
    case (1 k1)
    then show ?thesis by simp
  next
    case (2 k1 k2)
    then show ?thesis by simp
  next
    case 3
    with assms show ?thesis by simp
  next
    case (4 k1)
    with assms show ?thesis by simp
  qed
qed


lemma songs_loop_step:
  obtains (err) e where
      "fst (get_lyrics net url True by_decade replace folder w) = Inl e"
      "songs_loop net (url # rest) sleep by_decade replace folder w
         = (Inl e, snd (get_lyrics net url True by_decade replace folder w))"
  | (ok) r n w2 where
      "fst (get_lyrics net url True by_decade replace folder w) = Inr r"
      "trace w2 = trace (snd (get_lyrics net url True by_decade replace folder w)) @ [Sleep n]"
      "files w2 = files (snd (get_lyrics net url True by_decade replace folder w))"
      "dirs w2 = dirs (snd (get_lyrics net url True by_decade replace folder w))"
      "songs_loop net (url # rest) sleep by_decade replace folder w
         = songs_loop net rest sleep by_decade replace folder w2"
proof (cases "get_lyrics net url True by_decade replace folder w")
  case (Pair res w1)
  show ?thesis
  proof (cases res)
    case (Inl e)
    with Pair show ?thesis by (intro err [of e]) simp_all
  next
    case (Inr r)
    show ?thesis
    proof (cases sleep)
      case Random
      with Pair Inr show ?thesis
        by (intro ok [of r "time_sleep (fst (randint 5 15 w1)) (snd (randint 5 15 w1))"
                         "fst (randint 5 15 w1)"])
           (simp_all add: time_sleep_def randint_def)
    next
      case (Fixed t)
      with Pair Inr show ?thesis
        by (intro ok [of r "time_sleep t w1" t]) (simp_all add: time_sleep_def)
    qed
  qed
qed

lemma songs_loop_ok_steps:
  assumes "fst (songs_loop net urls sleep by_decade replace folder w) = Inr u"
  shows "\<exists>ev. trace (snd (songs_loop net urls sleep by_decade replace folder w)) = trace w @ ev
            \<and> map step_of ev = concat (map (spec_song_steps by_decade) urls)"
  using assms
proof (induction urls arbitrary: w)
  case Nil
  then show ?case by simp
next
  case (Cons url rest)
  show ?case
  proof (cases rule: songs_loop_step [of net url by_decade replace folder w rest sleep])
    case (err e)
    with Cons.prems show ?thesis by simp
  next
    case (ok r n w2)
    from get_lyrics_ok_steps [OF ok(1)] obtain ev1 where
      e1: "trace (snd (get_lyrics net url True by_decade replace folder w)) = trace w @ ev1"
          "map step_of ev1 = [Fetched url, Saved] @ (if by_decade then [Saved] else [])"
      by blast
    from Cons.prems ok(5)
    have "fst (songs_loop net rest sleep by_decade replace folder w2) = Inr u" by simp
    from Cons.IH [OF this] obtain ev2 where
      e2: "trace (snd (songs_loop net rest sleep by_decade replace folder w2)) = trace w2 @ ev2"
          "map step_of ev2 = concat (map (spec_song_steps by_decade) rest)"
      by blast
    have "trace (snd (songs_loop net (url # rest) sleep by_decade replace folder w))
            = trace w @ (ev1 @ [Sleep n] @ ev2)"
      using ok(2,5) e1(1) e2(1) by simp
    moreover have "map step_of (ev1 @ [Sleep n] @ ev2)
            = concat (map (spec_song_steps by_decade) (url # rest))"
      using e1(2) e2(2) by (simp add: spec_song_steps_def)
    ultimately show ?thesis by blast
  qed
qed


lemma collect_urls_Inr:
  assumes "collect_urls home ds urls = Inr us"
  shows "us = urls @ map (spec_song_url home) ds"
proof (cases "\<forall>d \<in> set ds. has_song_link d")
  case True
  from collect_urls_ok [OF this, of home urls] assms show ?thesis by simp
next
  case False
  then have "\<exists>d \<in> set ds. \<not> has_song_link d" by blast
  from collect_urls_err [OF this, of home urls] assms show ?thesis by auto
qed

lemma scrape_artist_ok_steps:
  assumes "fst (scrape_artist net az_url sleep by_decade replace folder w) = Inr u"
  shows "\<exists>ev. trace (snd (scrape_artist net az_url sleep by_decade replace folder w))
               = trace w @ ev
            \<and> map step_of ev = spec_artist_steps net by_decade az_url"
proof (cases "net az_url")
  case None
  with assms show ?thesis by (simp add: scrape_artist_def urlopen_def Let_def)
next
  case (Some bs)
  note un = scrape_artist_unfold [where net = net and az_url = az_url and bs = bs
             and sleep = sleep and by_decade = by_decade and replace = replace
             and folder = folder and w = w, OF Some]
  let ?w1 = "w\<lparr>trace := trace w @ [Fetch az_url]\<rparr>"
  show ?thesis
  proof (cases "collect_urls home_url (find_all_tag_class ''div'' ''listalbum-item'' bs) []")
    case (Inl e)
    with assms un show ?thesis by simp
  next
    case (Inr urls)
    from collect_urls_Inr [OF Inr] Some
    have urls: "urls = spec_songs net az_url" by (simp add: spec_songs_def)
    from un Inr
    have eq: "scrape_artist net az_url sleep by_decade replace folder w
              = songs_loop net urls sleep by_decade replace folder ?w1"
      by simp
    with assms have "fst (songs_loop net urls sleep by_decade replace folder ?w1) = Inr u"
      by simp
    from songs_loop_ok_steps [OF this] obtain ev where
      ev: "trace (snd (songs_loop net urls sleep by_decade replace folder ?w1))
             = trace ?w1 @ ev"
          "map step_of ev = concat (map (spec_song_steps by_decade) urls)"
      by blast
    have "trace (snd (scrape_artist net az_url sleep by_decade replace folder w))
            = trace w @ (Fetch az_url # ev)"
      using eq ev(1) by simp
    moreover have "map step_of (Fetch az_url # ev) = spec_artist_steps net by_decade az_url"
      using ev(2) urls by (simp add: spec_artist_steps_def)
    ultimately show ?thesis by blast
  qed
qed

lemma collect_artists_Inr:
  assumes "collect_artists home links us ns = Inr (aus, names)"
  shows "aus = us @ map (\<lambda>l. fst (spec_artist_ref home l)) links"
proof (cases "\<forall>l \<in> set links. get_attr l ''href'' \<noteq> None")
  case True
  from collect_artists_ok [OF this, of home us ns] assms show ?thesis by simp
next
  case False
  then have "\<exists>l \<in> set links. get_attr l ''href'' = None" by simp
  from collect_artists_err [OF this, of home us ns] assms show ?thesis by simp
qed

lemma get_artists_ok:
  assumes "fst (get_artists net token home_url w) = Inr (aus, names)"
  shows "trace (snd (get_artists net token home_url w))
           = trace w @ [Fetch (home_url @ token @ ''.html'')]
       \<and> aus = spec_artists net token"
proof (cases "net (home_url @ token @ ''.html'')")
  case None
  with assms show ?thesis by (simp add: get_artists_def urlopen_def Let_def)
next
  case (Some soup)
  note un = get_artists_unfold [where net = net and home = home_url and letter = token
             and soup = soup and w = w, OF Some]
  show ?thesis
  proof (cases "find_all_tag_class ''div'' ''row'' soup")
    case Nil
    with assms un show ?thesis by (simp add: py_index_def)
  next
    case (Cons r0 rs)
    show ?thesis
    proof (cases rs)
      case Nil
      with Cons assms un show ?thesis by (simp add: py_index_def)
    next
      case (Cons r1 rs')
      with \<open>find_all_tag_class ''div'' ''row'' soup = r0 # rs\<close>
      have rows: "find_all_tag_class ''div'' ''row'' soup = r0 # r1 # rs'" by simp
      show ?thesis
      proof (cases "collect_artists home_url (find_all ''a'' r1) [] []")
        case (Inl e)
        with rows assms un show ?thesis by (simp add: py_index_def)
      next
        case (Inr r)
        with rows assms un have r: "r = (aus, names)" by (simp add: py_index_def)
        from collect_artists_Inr [OF Inr [unfolded r]] rows Some
        have "aus = spec_artists net token" by (simp add: spec_artists_def)
        with rows Inr un show ?thesis by (simp add: py_index_def)
      qed
    qed
  qed
qed


lemma artists_loop_ok_steps:
  assumes "fst (artists_loop net aus names i sleep by_decade replace folder w) = Inr u"
  shows "\<exists>ev. trace (snd (artists_loop net aus names i sleep by_decade replace folder w))
               = trace w @ ev
            \<and> map step_of ev = concat (map (spec_artist_steps net by_decade) aus)"
  using assms
proof (induction aus arbitrary: i w)
  case Nil
  then show ?case by simp
next
  case (Cons az_url rest)
  show ?case
  proof (cases "py_index names i")
    case (Inl e)
    with Cons.prems show ?thesis by simp
  next
    case (Inr name)
    let ?fold = "if folder = ''names'' then name else folder"
    let ?A = "scrape_artist net az_url sleep by_decade replace ?fold w"
    show ?thesis
    proof (cases ?A)
      case (Pair res w1)
      show ?thesis
      proof (cases res)
        case (Inl e)
        with Pair Inr Cons.prems show ?thesis by (simp add: Let_def)
      next
        case (Inr u1)
        with Pair \<open>py_index names i = Inr name\<close>
        have eq: "artists_loop net (az_url # rest) names i sleep by_decade replace folder w
                  = artists_loop net rest names (i + 1) sleep by_decade replace folder w1"
          by (simp add: Let_def)
        from Pair Inr have "fst ?A = Inr u1" by simp
        from scrape_artist_ok_steps [OF this] Pair obtain ev1 where
          e1: "trace w1 = trace w @ ev1"
              "map step_of ev1 = spec_artist_steps net by_decade az_url"
          by auto
        from Cons.prems eq
        have "fst (artists_loop net rest names (i + 1) sleep by_decade replace folder w1)
                = Inr u" by simp
        from Cons.IH [OF this] obtain ev2 where
          e2: "trace (snd (artists_loop net rest names (i + 1) sleep by_decade replace
                             folder w1)) = trace w1 @ ev2"
              "map step_of ev2 = concat (map (spec_artist_steps net by_decade) rest)"
          by blast
        have "trace (snd (artists_loop net (az_url # rest) names i sleep by_decade replace
                            folder w)) = trace w @ (ev1 @ ev2)"
          using eq e1(1) e2(1) by simp
        moreover have "map step_of (ev1 @ ev2)
                = concat (map (spec_artist_steps net by_decade) (az_url # rest))"
          using e1(2) e2(2) by simp
        ultimately show ?thesis by blast
      qed
    qed
  qed
qed

lemma lets_loop_ok_steps:
  assumes "fst (lets_loop net lets sleep by_decade replace folder w) = Inr u"
  shows "\<exists>ev. trace (snd (lets_loop net lets sleep by_decade replace folder w)) = trace w @ ev
            \<and> map step_of ev = spec_crawl_steps net by_decade lets"
  using assms
proof (induction lets arbitrary: w)
  case Nil
  then show ?case by (simp add: spec_crawl_steps_def)
next
  case (Cons l rest)
  let ?G = "get_artists net l home_url w"
  show ?case
  proof (cases ?G)
    case (Pair res w1)
    show ?thesis
    proof (cases res)
      case (Inl e)
      with Pair Cons.prems show ?thesis by simp
    next
      case (Inr r)
      obtain aus names where r: "r = (aus, names)" by (cases r)
      from Pair Inr r have "fst ?G = Inr (aus, names)" by simp
      from get_artists_ok [OF this] Pair
      have g: "trace w1 = trace w @ [Fetch (home_url @ l @ ''.html'')]"
              "aus = spec_artists net l"
        by simp_all
      let ?L = "artists_loop net aus names 0 sleep by_decade replace folder w1"
      show ?thesis
      proof (cases ?L)
        case P2: (Pair res2 w2)
        show ?thesis
        proof (cases res2)
          case (Inl e)
          with P2 Pair Inr r Cons.prems show ?thesis by simp
        next
          case I2: (Inr u2)
          with P2 Pair Inr r
          have eq: "lets_loop net (l # rest) sleep by_decade replace folder w
                    = lets_loop net rest sleep by_decade replace folder w2"
            by simp
          from P2 I2 have "fst ?L = Inr u2" by simp
          from artists_loop_ok_steps [OF this] P2 obtain ev1 where
            e1: "trace w2 = trace w1 @ ev1"
                "map step_of ev1 = concat (map (spec_artist_steps net by_decade) aus)"
            by auto
          from Cons.prems eq
          have "fst (lets_loop net rest sleep by_decade replace folder w2) = Inr u" by simp
          from Cons.IH [OF this] obtain ev2 where
            e2: "trace (snd (lets_loop net rest sleep by_decade replace folder w2))
                   = trace w2 @ ev2"
                "map step_of ev2 = spec_crawl_steps net by_decade rest"
            by blast
          have "trace (snd (lets_loop net (l # rest) sleep by_decade replace folder w))
                  = trace w @ (Fetch (home_url @ l @ ''.html'') # ev1 @ ev2)"
            using eq g(1) e1(1) e2(1) by simp
          moreover have "map step_of (Fetch (home_url @ l @ ''.html'') # ev1 @ ev2)
                  = spec_crawl_steps net by_decade (l # rest)"
            using e1(2) e2(2) g(2)
            by (simp add: spec_crawl_steps_def spec_token_steps_def)
          ultimately show ?thesis by blast
        qed
      qed
    qed
  qed
qed

lemma all_lets_tokens: "all_lets = spec_all_tokens"
  by code_simp

text \<open>
  C8. Called with \<^verbatim>\<open>letters="all"\<close>, \<open>scrape_all\<close> goes through the 26 lowercase
  letters in alphabetical order and then the one token \<open>19\<close>, 27 tokens in all. When
  the crawl ends without error, what it did, in order, is exactly this: for each token
  in that order, the fetch of the token's index page; then for each artist of that page,
  in the order returned, the fetch of the artist's page; then for each song of that
  artist, in order, the fetch of the song, its saving (two writes when split by decade,
  one otherwise) and a pause, all before the next artist is touched.
\<close>

theorem scrape_all_order:
  assumes "fst (scrape_all net All sleep by_decade replace folder w) = Inr u"
  shows "all_lets = spec_all_tokens \<and> length all_lets = 27
       \<and> (\<exists>ev. trace (snd (scrape_all net All sleep by_decade replace folder w)) = trace w @ ev
               \<and> map step_of ev = spec_crawl_steps net by_decade spec_all_tokens)"
proof -
  have l: "length all_lets = 27" by code_simp
  from assms have "fst (lets_loop net all_lets sleep by_decade replace folder w) = Inr u"
    by (simp add: scrape_all_def)
  from lets_loop_ok_steps [OF this]
  have "\<exists>ev. trace (snd (scrape_all net All sleep by_decade replace folder w)) = trace w @ ev
            \<and> map step_of ev = spec_crawl_steps net by_decade spec_all_tokens"
    by (simp add: scrape_all_def all_lets_tokens)
  with l all_lets_tokens show ?thesis by blast
qed


lemma lets_loop_Cons_ok:
  assumes "fst (get_artists net l home_url w) = Inr (aus, names)"
    and "fst (artists_loop net aus names 0 sleep by_decade replace folder
                (snd (get_artists net l home_url w))) = Inr u"
  shows "lets_loop net (l # rest) sleep by_decade replace folder w
           = lets_loop net rest sleep by_decade replace folder
               (snd (artists_loop net aus names 0 sleep by_decade replace folder
                       (snd (get_artists net l home_url w))))"
proof (cases "get_artists net l home_url w")
  case (Pair res w1)
  with assms(1) have res: "res = Inr (aus, names)" by simp
  show ?thesis
  proof (cases "artists_loop net aus names 0 sleep by_decade replace folder w1")
    case P2: (Pair res2 w2)
    with assms(2) Pair have "res2 = Inr u" by simp
    with Pair res P2 show ?thesis by simp
  qed
qed

lemma get_artists_nobody:
  assumes "net (home_url @ l @ ''.html'') = Some (index_page [])"
  shows "fst (get_artists net l home_url w) = Inr ([], [])"
proof -
  have r: "py_index (find_all_tag_class ''div'' ''row'' (index_page [])) 1
             = Inr (Tag ''div'' [''container'', ''row''] [] [])"
    by code_simp
  have a: "find_all ''a'' (Tag ''div'' [''container'', ''row''] [] []) = []"
    by code_simp
  show ?thesis
    unfolding get_artists_unfold [where net = net and home = home_url and letter = l
                 and soup = "index_page []" and w = w, OF assms]
    using r a by simp
qed

lemma lets_loop_nobody:
  assumes "\<forall>l \<in> set lets. net (home_url @ l @ ''.html'') = Some (index_page [])"
  shows "fst (lets_loop net lets sleep by_decade replace folder w) = Inr ()"
  using assms
proof (induction lets arbitrary: w)
  case Nil
  then show ?case by simp
next
  case (Cons l rest)
  then have n: "net (home_url @ l @ ''.html'') = Some (index_page [])" by simp
  note g = get_artists_nobody [where net = net and l = l and w = w, OF n]
  have "lets_loop net (l # rest) sleep by_decade replace folder w
          = lets_loop net rest sleep by_decade replace folder
               (snd (artists_loop net [] [] 0 sleep by_decade replace folder
                       (snd (get_artists net l home_url w))))"
    by (rule lets_loop_Cons_ok [OF g]) simp
  with Cons show ?case by simp
qed

lemma net_site_crawl_ok:
  "fst (scrape_all net_site All (Fixed 2) True False ''songs'' w_empty) = Inr ()"
proof -
  have l: "all_lets = ''a'' # tl spec_all_tokens" by code_simp
  have g: "fst (get_artists net_site ''a'' home_url w_empty)
             = Inr ([''https://www.azlyrics.com/a/one.html'',
                     ''https://www.azlyrics.com/a/two.html''],
                    [''Artist One'', ''Artist Two''])"
    by code_simp
  have a: "fst (artists_loop net_site
                  [''https://www.azlyrics.com/a/one.html'',
                   ''https://www.azlyrics.com/a/two.html'']
                  [''Artist One'', ''Artist Two''] 0 (Fixed 2) True False ''songs''
                  (snd (get_artists net_site ''a'' home_url w_empty))) = Inr ()"
    by code_simp
  have n: "\<forall>l \<in> set (tl spec_all_tokens).
             net_site (home_url @ l @ ''.html'') = Some (index_page [])"
    by code_simp
  have "scrape_all net_site All (Fixed 2) True False ''songs'' w_empty
          = lets_loop net_site (''a'' # tl spec_all_tokens) (Fixed 2) True False ''songs''
              w_empty"
    by (simp add: scrape_all_def l del: lets_loop.simps)
  then show ?thesis
    by (simp only: lets_loop_Cons_ok [OF g a] lets_loop_nobody [OF n])
qed

theorem scrape_all_order_witness:
  "fst (scrape_all net_site All (Fixed 2) True False ''songs'' w_empty) = Inr ()
   \<and> map step_of (trace (snd (scrape_all net_site All (Fixed 2) True False ''songs'' w_empty)))
       = spec_crawl_steps net_site True spec_all_tokens
   \<and> spec_crawl_steps net_site True spec_all_tokens
       = [Fetched ''https://www.azlyrics.com/a.html'',
          Fetched ''https://www.azlyrics.com/a/one.html'',
          Fetched ''https://www.azlyrics.com/lyrics/one/song.html'', Saved, Saved, Paused,
          Fetched ''https://www.azlyrics.com/a/two.html'']
         @ map (\<lambda>t. Fetched (''https://www.azlyrics.com/'' @ t @ ''.html''))
               (tl spec_all_tokens)"
proof -
  have a: "fst (scrape_all net_site All (Fixed 2) True False ''songs'' w_empty) = Inr ()"
    by (rule net_site_crawl_ok)
  have b: "spec_crawl_steps net_site True spec_all_tokens
       = [Fetched ''https://www.azlyrics.com/a.html'',
          Fetched ''https://www.azlyrics.com/a/one.html'',
          Fetched ''https://www.azlyrics.com/lyrics/one/song.html'', Saved, Saved, Paused,
          Fetched ''https://www.azlyrics.com/a/two.html'']
         @ map (\<lambda>t. Fetched (''https://www.azlyrics.com/'' @ t @ ''.html''))
               (tl spec_all_tokens)"
    by code_simp
  from scrape_all_order [OF a]
  have c: "map step_of (trace (snd (scrape_all net_site All (Fixed 2) True False ''songs''
                                      w_empty)))
       = spec_crawl_steps net_site True spec_all_tokens"
    by (auto simp: w_empty_def)
  from a b c show ?thesis by blast
qed

subsection \<open>What is written\<close>













end
